theory Spec2Isabelle
  imports Complex_Main
begin

section \<open>JavaScript values and strings\<close>

text \<open>
  The two front ends (\<^verbatim>\<open>api/static/app.js\<close> for the local backend, \<^verbatim>\<open>docs/app.js\<close> for the
  cloud console) and their service workers are embedded function by function. A value that
  comes back from \<^verbatim>\<open>JSON.parse\<close> or \<^verbatim>\<open>resp.json()\<close> is a \<open>jsval\<close>; \<open>Undefined\<close> is what reading
  an absent property yields. A number is a double: \<open>Fin r\<close> is the finite double of value \<open>r\<close>
  (both zeros are \<open>Fin 0\<close>), and the two infinities are what an overflowing JSON literal
  parses to. A string is a list of code units below 256, so of ASCII and Latin-1 characters.
  The user-visible literals of the source are Chinese text and emoji; they are written here in
  an ASCII rendering, one rendering per literal, since only their identity matters.
\<close>

datatype jsnum = Fin rat | PosInf | NegInf

datatype jsval =
    Undefined
  | Null
  | Bool bool
  | Num jsnum
  | is_Str: Str string
  | is_Arr: Arr "jsval list"
  | Obj "(string \<times> jsval) list"

datatype js_error = TypeError | SyntaxError | NetworkFailure

text \<open>ToBoolean, as used by \<^verbatim>\<open>||\<close>, \<^verbatim>\<open>&&\<close>, \<^verbatim>\<open>!\<close> and \<^verbatim>\<open>if\<close>.\<close>

fun truthy :: "jsval \<Rightarrow> bool" where
  "truthy Undefined = False"
| "truthy Null = False"
| "truthy (Bool b) = b"
| "truthy (Num x) = (x \<noteq> Fin 0)"
| "truthy (Str s) = (s \<noteq> [])"
| "truthy (Arr xs) = True"
| "truthy (Obj kvs) = True"

definition js_or :: "jsval \<Rightarrow> jsval \<Rightarrow> jsval" where
  \<comment> \<open>\<^verbatim>\<open>a || b\<close>\<close>
  "js_or a b = (if truthy a then a else b)"

text \<open>
  Property read \<^verbatim>\<open>v.name\<close>. On \<^verbatim>\<open>null\<close> and \<^verbatim>\<open>undefined\<close> it throws; on an object it is the
  stored value or \<^verbatim>\<open>undefined\<close>; on the other values it is \<^verbatim>\<open>undefined\<close> for every name the
  source reads (\<^verbatim>\<open>success\<close>, \<^verbatim>\<open>error\<close>, \<^verbatim>\<open>message\<close>, \<^verbatim>\<open>type\<close>, \<^verbatim>\<open>value\<close>, \<^verbatim>\<open>caption_title\<close>,
  \<^verbatim>\<open>cover_title\<close>, \<^verbatim>\<open>images\<close>), none of which is a built-in member.
\<close>

fun get_prop :: "jsval \<Rightarrow> string \<Rightarrow> js_error + jsval" where
  "get_prop Undefined k = Inl TypeError"
| "get_prop Null k = Inl TypeError"
| "get_prop (Obj kvs) k = Inr (case map_of kvs k of None \<Rightarrow> Undefined | Some v \<Rightarrow> v)"
| "get_prop v k = Inr Undefined"

definition digit :: "nat \<Rightarrow> char" where
  "digit n = ''0123456789'' ! (n mod 10)"

fun nat_str :: "nat \<Rightarrow> string" where
  "nat_str n = (if n < 10 then [digit n] else nat_str (n div 10) @ [digit n])"

declare nat_str.simps [simp del]

definition int_str :: "int \<Rightarrow> string" where
  "int_str i = (if i < 0 then CHR ''-'' # nat_str (nat (- i)) else nat_str (nat i))"

text \<open>
  The text of a DOM property or of a template literal. It is made of characters and, where
  the model does not spell the characters out, of two kinds of place holders: \<open>NumText r\<close> is
  the run of characters that \<^verbatim>\<open>Number.prototype.toString\<close> gives for the finite number \<open>r\<close>,
  and \<open>RoundText v\<close> the run that \<^verbatim>\<open>`${Math.round(v)}`\<close> gives for a value \<open>v\<close> that is not a
  number. Equal texts of the model are equal strings.
\<close>

datatype piece = Ch char | NumText rat | RoundText jsval

type_synonym jstext = "piece list"

definition lit :: "string \<Rightarrow> jstext" where
  "lit s = map Ch s"

text \<open>
  ToString of a number. An integral number up to \<open>2^53\<close> in magnitude is printed as its
  decimal digits; for the other finite numbers (fractions, exponent notation, integers above
  \<open>2^53\<close>, which are printed with the shortest digits that read back as the same double) the
  characters are left as \<open>NumText\<close>.
\<close>

definition num_text :: "jsnum \<Rightarrow> jstext" where
  "num_text x =
     (case x of
        Fin r \<Rightarrow>
          if of_int \<lfloor>r\<rfloor> = r \<and> \<bar>r\<bar> \<le> 2 ^ 53 then lit (int_str \<lfloor>r\<rfloor>) else [NumText r]
      | PosInf \<Rightarrow> lit ''Infinity''
      | NegInf \<Rightarrow> lit ''-Infinity'')"

text \<open>
  ToString, as applied by template literals, string concatenation and DOM string
  properties. An array is its elements joined by commas, \<^verbatim>\<open>null\<close> and \<^verbatim>\<open>undefined\<close> elements
  giving the empty string. An object is \<^verbatim>\<open>[object Object]\<close>, by the \<^verbatim>\<open>toString\<close> it inherits;
  an object that has a property \<^verbatim>\<open>toString\<close> of its own, which in a parsed value is never a
  function, has no way to a primitive and the conversion throws.
\<close>

fun to_string :: "jsval \<Rightarrow> js_error + jstext"
  and join_elems :: "jsval list \<Rightarrow> js_error + jstext"
  and elem_string :: "jsval \<Rightarrow> js_error + jstext" where
  "to_string Undefined = Inr (lit ''undefined'')"
| "to_string Null = Inr (lit ''null'')"
| "to_string (Bool b) = Inr (lit (if b then ''true'' else ''false''))"
| "to_string (Num x) = Inr (num_text x)"
| "to_string (Str s) = Inr (lit s)"
| "to_string (Arr xs) = join_elems xs"
| "to_string (Obj kvs) =
     (if ''toString'' \<in> set (map fst kvs) then Inl TypeError else Inr (lit ''[object Object]''))"
| "join_elems [] = Inr []"
| "join_elems [x] = elem_string x"
| "join_elems (x # y # ys) =
     (case elem_string x of
        Inl e \<Rightarrow> Inl e
      | Inr a \<Rightarrow> (case join_elems (y # ys) of Inl e \<Rightarrow> Inl e | Inr b \<Rightarrow> Inr (a @ lit '','' @ b)))"
| "elem_string Undefined = Inr []"
| "elem_string Null = Inr []"
| "elem_string (Bool b) = to_string (Bool b)"
| "elem_string (Num x) = to_string (Num x)"
| "elem_string (Str s) = to_string (Str s)"
| "elem_string (Arr xs) = to_string (Arr xs)"
| "elem_string (Obj kvs) = to_string (Obj kvs)"

text \<open>
  \<^verbatim>\<open>String.prototype.trim\<close>. The white space among the code units below 256 is tab, LF, VT,
  FF, CR, space and the no-break space U+00A0. The white space beyond (U+1680, U+2000 to
  U+200A, U+2028, U+2029, U+202F, U+205F, U+3000, U+FEFF) is, as every character beyond, not
  among the strings of the model.
\<close>

definition is_space :: "char \<Rightarrow> bool" where
  "is_space c =
     (c \<in> set [CHR 0x09, CHR 0x0A, CHR 0x0B, CHR 0x0C, CHR 0x0D, CHR '' '', CHR 0xA0])"

definition trim :: "string \<Rightarrow> string" where
  "trim s = rev (dropWhile is_space (rev (dropWhile is_space s)))"

text \<open>\<^verbatim>\<open>String.prototype.includes\<close>: does \<open>sub\<close> occur in \<open>s\<close> as a contiguous run.\<close>

fun starts_with :: "string \<Rightarrow> string \<Rightarrow> bool" where
  "starts_with s [] = True"
| "starts_with [] (c # cs) = False"
| "starts_with (d # ds) (c # cs) = (d = c \<and> starts_with ds cs)"

fun str_includes :: "string \<Rightarrow> string \<Rightarrow> bool" where
  "str_includes [] sub = (sub = [])"
| "str_includes (c # cs) sub = (starts_with (c # cs) sub \<or> str_includes cs sub)"

text \<open>\<^verbatim>\<open>s.replace(/\n/g, ' | ')\<close>: every line feed becomes the three characters \<^verbatim>\<open> | \<close>.\<close>

fun replace_newlines :: "string \<Rightarrow> string" where
  "replace_newlines [] = []"
| "replace_newlines (c # cs) =
     (if c = CHR 0x0A then '' | '' @ replace_newlines cs else c # replace_newlines cs)"

text \<open>
  The method call \<^verbatim>\<open>v.replace(/\n/g, ' | ')\<close> on an arbitrary value: only a string has the
  method, on anything else the call is a TypeError.
\<close>

fun js_replace_newlines :: "jsval \<Rightarrow> js_error + string" where
  "js_replace_newlines (Str s) = Inr (replace_newlines s)"
| "js_replace_newlines v = Inl TypeError"

text \<open>The receiver of \<^verbatim>\<open>.forEach\<close>: only an array has the method.\<close>

fun js_array :: "jsval \<Rightarrow> js_error + jsval list" where
  "js_array (Arr xs) = Inr xs"
| "js_array v = Inl TypeError"

text \<open>
  \<^verbatim>\<open>Math.round\<close> of a number: the nearest integer, a tie going up; an infinity is itself.
\<close>

fun Math_round :: "jsnum \<Rightarrow> jsnum" where
  "Math_round (Fin r) = Fin (of_int \<lfloor>r + 1 / 2\<rfloor>)"
| "Math_round PosInf = PosInf"
| "Math_round NegInf = NegInf"

definition round_text :: "jsval \<Rightarrow> jstext" where
  \<comment> \<open>\<^verbatim>\<open>`${Math.round(v)}`\<close>\<close>
  "round_text v = (case v of Num x \<Rightarrow> num_text (Math_round x) | _ \<Rightarrow> [RoundText v])"

text \<open>
  Assigning to \<^verbatim>\<open>style.width\<close>. The style keeps a value only if it parses as a width, and
  otherwise stays as it was. The percentage of a number parses when the number is finite and
  not negative. For a text that does not come from a number the model does not decide:
  \<open>Assigned t w\<close> is the width after \<open>t\<close> was assigned over \<open>w\<close>, which is \<open>t\<close> or \<open>w\<close>.
\<close>

datatype width = Width jstext | Assigned jstext width

fun width_accepts :: "jsnum \<Rightarrow> bool" where
  "width_accepts (Fin r) = (0 \<le> r)"
| "width_accepts PosInf = False"
| "width_accepts NegInf = False"

definition set_width_percent :: "jsval \<Rightarrow> jstext \<Rightarrow> width \<Rightarrow> width" where
  \<comment> \<open>\<^verbatim>\<open>style.width = `${v}%`\<close>, where \<open>t\<close> is the text of \<open>v\<close> and \<open>old\<close> the width before\<close>
  "set_width_percent v t old =
     (case v of
        Num x \<Rightarrow> if width_accepts x then Width (t @ lit ''%'') else old
      | _ \<Rightarrow> Assigned (t @ lit ''%'') old)"

section \<open>The backend front end: state\<close>

text \<open>
  The state of \<^verbatim>\<open>api/static/app.js\<close>: the module variables \<^verbatim>\<open>ws\<close> and \<^verbatim>\<open>isProcessing\<close>, the
  properties of the DOM elements the script reads and writes, and what the browser holds for
  the script: the sockets it created (in creation order, \<^verbatim>\<open>ws\<close> is an index into them), the
  pending \<^verbatim>\<open>setTimeout\<close> callbacks with their due time, the registered \<^verbatim>\<open>setInterval\<close>
  callbacks with their period, and the text frames handed to \<^verbatim>\<open>send\<close>.
\<close>

datatype readyState = CONNECTING | OPEN | CLOSING | CLOSED

datatype callback = ConnectWebSocket | Heartbeat | HideToast

record button =
  disabled :: bool
  innerHTML :: string

record img =
  img_className :: string
  img_src :: jstext
  img_alt :: jstext
  img_onclick :: jsval   \<comment> \<open>the \<^verbatim>\<open>url\<close> the click handler passes to \<^verbatim>\<open>openViewer\<close>\<close>

record app =
  now :: nat
  socks :: "readyState list"
  ws :: "nat option"
  timeouts :: "(nat \<times> callback) list"
  intervals :: "(nat \<times> callback) list"
  sent :: "(nat \<times> string) list"
  isProcessing :: bool
  connectionStatus :: string
  statusDot :: string
  urlInput :: string
  modelSelect :: string
  templateSelect :: string
  promptSelect :: string
  btnManual :: button
  btnAuto :: button
  btnPublish :: button
  progressWrapper :: bool
  progressBar :: width
  progressText :: jstext
  logPanel :: bool
  logContainer :: "jstext list"
  previewPanel :: bool
  previewTitle :: jstext
  previewSubtitle :: jstext
  imageCarousel :: "img list"
  imageViewer :: bool
  viewerImage :: jstext
  toastText :: jstext
  toastShow :: bool

text \<open>
  The boolean fields \<open>progressWrapper\<close>, \<open>logPanel\<close>, \<open>previewPanel\<close>, \<open>imageViewer\<close> say whether the
  element carries the class \<^verbatim>\<open>active\<close>, \<open>toastShow\<close> whether the toast carries \<^verbatim>\<open>show\<close>;
  \<open>progressBar\<close> is the width the style of the bar holds, \<open>statusDot\<close> is \<^verbatim>\<open>style.background\<close>,
  \<open>logContainer\<close> the text of the log entries in document order.
\<close>

definition setTimeout :: "callback \<Rightarrow> nat \<Rightarrow> app \<Rightarrow> app" where
  "setTimeout cb delay s = s\<lparr>timeouts := timeouts s @ [(now s + delay, cb)]\<rparr>"

definition setInterval :: "callback \<Rightarrow> nat \<Rightarrow> app \<Rightarrow> app" where
  "setInterval cb period s = s\<lparr>intervals := intervals s @ [(period, cb)]\<rparr>"

section \<open>UI helper functions\<close>

definition LABEL_PUBLISH :: string where
  \<comment> \<open>the default label of the publish button, set by \<^verbatim>\<open>showPreview\<close> and \<^verbatim>\<open>handlePublish\<close>\<close>
  "LABEL_PUBLISH = ''[check] confirm publish to Xiaohongshu''"

definition LABEL_PUBLISHING :: string where
  "LABEL_PUBLISHING = ''<span class=\"spinner\"></span> publishing...''"

definition LABEL_PUBLISHED :: string where
  "LABEL_PUBLISHED = ''[check] published''"

definition LABEL_PROCESSING :: string where
  "LABEL_PROCESSING = ''<span class=\"spinner\"></span> processing...''"

definition LABEL_MANUAL :: string where
  "LABEL_MANUAL = ''<span>[magnifier]</span> <span>manual generate</span>''"

definition LABEL_AUTO :: string where
  "LABEL_AUTO = ''<span>[rocket]</span> <span>auto publish</span>''"

definition setProcessing :: "bool \<Rightarrow> app \<Rightarrow> app" where
  "setProcessing state s =
     (let s = s\<lparr>isProcessing := state\<rparr> in
      if state then
        s\<lparr>btnManual := \<lparr>disabled = True, innerHTML = LABEL_PROCESSING\<rparr>,
          btnAuto := \<lparr>disabled = True, innerHTML = LABEL_PROCESSING\<rparr>,
          progressWrapper := True\<rparr>
      else
        s\<lparr>btnManual := \<lparr>disabled = False, innerHTML = LABEL_MANUAL\<rparr>,
          btnAuto := \<lparr>disabled = False, innerHTML = LABEL_AUTO\<rparr>,
          progressWrapper := False\<rparr>)"

definition showLogPanel :: "app \<Rightarrow> app" where
  "showLogPanel s = s\<lparr>logPanel := True\<rparr>"

definition clearLogs :: "app \<Rightarrow> app" where
  "clearLogs s = s\<lparr>logContainer := []\<rparr>"

text \<open>
  A function of the source that can throw returns a \<open>completion\<close>: either it returned, or it
  threw, and in both cases the state is the one it had reached, since the DOM writes made
  before a throw stay.
\<close>

datatype 'a completion = Returned 'a | Thrown js_error 'a

definition state_of :: "'a completion \<Rightarrow> 'a" where
  \<comment> \<open>the state a call had reached when it completed, whichever way\<close>
  "state_of c = (case c of Returned s \<Rightarrow> s | Thrown e s \<Rightarrow> s)"

text \<open>
  Assigning to \<^verbatim>\<open>textContent\<close>, a nullable DOM string: \<^verbatim>\<open>null\<close> and \<^verbatim>\<open>undefined\<close> give the
  empty text, every other value its ToString, which can throw.
\<close>

definition text_content :: "jsval \<Rightarrow> js_error + jstext" where
  "text_content v = (if v = Undefined \<or> v = Null then Inr [] else to_string v)"

definition appendLog :: "jsval \<Rightarrow> app \<Rightarrow> app completion" where
  \<comment> \<open>the entry is appended after its text was set\<close>
  "appendLog msg s =
     (case text_content msg of
        Inl e \<Rightarrow> Thrown e s
      | Inr t \<Rightarrow> Returned (s\<lparr>logContainer := logContainer s @ [t]\<rparr>))"

definition updateProgress :: "jsval \<Rightarrow> app \<Rightarrow> app completion" where
  "updateProgress v s =
     (let s = s\<lparr>progressWrapper := True\<rparr> in
      case to_string v of
        Inl e \<Rightarrow> Thrown e s
      | Inr t \<Rightarrow>
          Returned (s\<lparr>progressBar := set_width_percent v t (progressBar s),
                      progressText := round_text v @ lit ''%''\<rparr>))"

definition hidePreview :: "app \<Rightarrow> app" where
  "hidePreview s = s\<lparr>previewPanel := False\<rparr>"

definition openViewer :: "jsval \<Rightarrow> app \<Rightarrow> app completion" where
  "openViewer src s =
     (case to_string src of
        Inl e \<Rightarrow> Thrown e s
      | Inr t \<Rightarrow> Returned (s\<lparr>viewerImage := t, imageViewer := True\<rparr>))"

definition closeViewer :: "app \<Rightarrow> app" where
  "closeViewer s = s\<lparr>imageViewer := False\<rparr>"

definition showToast :: "jstext \<Rightarrow> app \<Rightarrow> app" where
  "showToast message s = setTimeout HideToast 3000 (s\<lparr>toastText := message, toastShow := True\<rparr>)"

definition hideToast :: "app \<Rightarrow> app" where
  \<comment> \<open>the callback of the timer \<^verbatim>\<open>showToast\<close> sets\<close>
  "hideToast s = s\<lparr>toastShow := False\<rparr>"

text \<open>
  The \<^verbatim>\<open>forEach\<close> of \<^verbatim>\<open>showPreview\<close> from index \<open>i\<close> on: for each element an image is made, its
  source set to the element, which converts it to a string and can throw, and the image
  appended to the carousel.
\<close>

fun append_images :: "nat \<Rightarrow> jsval list \<Rightarrow> app \<Rightarrow> app completion" where
  "append_images i [] s = Returned s"
| "append_images i (url # urls) s =
     (case to_string url of
        Inl e \<Rightarrow> Thrown e s
      | Inr src \<Rightarrow>
          append_images (Suc i) urls
            (s\<lparr>imageCarousel := imageCarousel s @
                 [\<lparr>img_className = ''preview-image'', img_src = src,
                   img_alt = lit (''page '' @ nat_str (i + 1)), img_onclick = url\<rparr>]\<rparr>))"

definition rearm_publish :: "app \<Rightarrow> app" where
  \<comment> \<open>lines 307 to 311 of \<^verbatim>\<open>showPreview\<close>: reset the publish button, activate the panel\<close>
  "rearm_publish s =
     s\<lparr>btnPublish := \<lparr>disabled = False, innerHTML = LABEL_PUBLISH\<rparr>, previewPanel := True\<rparr>"

definition showPreview_images :: "jsval \<Rightarrow> app \<Rightarrow> app completion" where
  "showPreview_images data s =
     (let s = s\<lparr>imageCarousel := []\<rparr> in
      case get_prop data ''images'' of
        Inl e \<Rightarrow> Thrown e s
      | Inr images \<Rightarrow>
          (case js_array (js_or images (Arr [])) of
             Inl e \<Rightarrow> Thrown e s
           | Inr urls \<Rightarrow>
               (case append_images 0 urls s of
                  Thrown e s' \<Rightarrow> Thrown e s'
                | Returned s' \<Rightarrow> Returned (rearm_publish s'))))"

definition showPreview_subtitle :: "jsval \<Rightarrow> app \<Rightarrow> app completion" where
  "showPreview_subtitle data s =
     (case get_prop data ''cover_title'' of
        Inl e \<Rightarrow> Thrown e s
      | Inr cover_title \<Rightarrow>
          (case js_replace_newlines (js_or cover_title (Str [])) of
             Inl e \<Rightarrow> Thrown e s
           | Inr line \<Rightarrow>
               showPreview_images data (s\<lparr>previewSubtitle := lit (''cover title: '' @ line)\<rparr>)))"

definition showPreview :: "jsval \<Rightarrow> app \<Rightarrow> app completion" where
  "showPreview data s =
     (case get_prop data ''caption_title'' of
        Inl e \<Rightarrow> Thrown e s
      | Inr caption_title \<Rightarrow>
          (case text_content (js_or caption_title (Str [])) of
             Inl e \<Rightarrow> Thrown e s
           | Inr title \<Rightarrow> showPreview_subtitle data (s\<lparr>previewTitle := title\<rparr>)))"

section \<open>Session controller\<close>

definition connectWebSocket :: "app \<Rightarrow> app" where
  \<comment> \<open>a new socket, stored in \<^verbatim>\<open>ws\<close>; the four handlers are the functions below; one more interval\<close>
  "connectWebSocket s =
     setInterval Heartbeat 30000
       (s\<lparr>socks := socks s @ [CONNECTING], ws := Some (length (socks s))\<rparr>)"

definition ws_onopen :: "app \<Rightarrow> app" where
  "ws_onopen s = s\<lparr>connectionStatus := ''connected'', statusDot := ''var(--success)''\<rparr>"

text \<open>
  \<^verbatim>\<open>ws.onmessage\<close>, given what \<^verbatim>\<open>JSON.parse(event.data)\<close> yields: \<open>None\<close> when the frame is not
  JSON and the parse throws, the parsed value otherwise.
\<close>

definition ws_onmessage :: "jsval option \<Rightarrow> app \<Rightarrow> app completion" where
  "ws_onmessage parsed s =
     (case parsed of
        None \<Rightarrow> Thrown SyntaxError s
      | Some data \<Rightarrow>
          (case get_prop data ''type'' of
             Inl e \<Rightarrow> Thrown e s
           | Inr t \<Rightarrow>
               if t = Str ''log'' then
                 (case get_prop data ''message'' of
                    Inl e \<Rightarrow> Thrown e s
                  | Inr m \<Rightarrow> appendLog m s)
               else if t = Str ''progress'' then
                 (case get_prop data ''value'' of
                    Inl e \<Rightarrow> Thrown e s
                  | Inr v \<Rightarrow> updateProgress v s)
               else Returned s))"

definition ws_onclose :: "app \<Rightarrow> app" where
  "ws_onclose s =
     setTimeout ConnectWebSocket 3000
       (s\<lparr>connectionStatus := ''disconnected, reconnecting...'', statusDot := ''var(--danger)''\<rparr>)"

definition ws_onerror :: "app \<Rightarrow> app" where
  "ws_onerror s = s\<lparr>connectionStatus := ''connection failed'', statusDot := ''var(--danger)''\<rparr>"

text \<open>
  The ready state of the socket in \<^verbatim>\<open>ws\<close>; \<open>None\<close> while \<^verbatim>\<open>ws\<close> is \<^verbatim>\<open>null\<close>. It is the
  connection state of the session controller.
\<close>

definition ws_readyState :: "app \<Rightarrow> readyState option" where
  "ws_readyState s =
     (case ws s of None \<Rightarrow> None
      | Some i \<Rightarrow> if i < length (socks s) then Some (socks s ! i) else None)"

definition heartbeat :: "app \<Rightarrow> app" where
  \<comment> \<open>the interval callback: \<^verbatim>\<open>if (ws && ws.readyState === WebSocket.OPEN) ws.send('ping')\<close>\<close>
  "heartbeat s =
     (case ws s of None \<Rightarrow> s
      | Some i \<Rightarrow>
          if ws_readyState s = Some OPEN then s\<lparr>sent := sent s @ [(i, ''ping'')]\<rparr> else s)"

fun run_callback :: "callback \<Rightarrow> app \<Rightarrow> app" where
  "run_callback ConnectWebSocket s = connectWebSocket s"
| "run_callback Heartbeat s = heartbeat s"
| "run_callback HideToast s = hideToast s"

section \<open>Job launcher of the backend front end\<close>

text \<open>
  An \<^verbatim>\<open>async\<close> handler runs in two parts. The first part runs from the click to the first
  \<^verbatim>\<open>await\<close> (or to an early \<^verbatim>\<open>return\<close>) and is the function \<open>_begin\<close>; it returns the state and
  the calls it made to the outside, in order: \<^verbatim>\<open>confirm\<close> dialogs and \<^verbatim>\<open>fetch\<close> requests. The
  handler is in flight exactly when that list holds a \<open>Fetch\<close>. The second part, \<open>_resume\<close>, runs
  when the request settles, on the state of that moment, and is given how it settled. What
  \<^verbatim>\<open>confirm\<close> returns is the user's answer, a parameter.
\<close>

record request =
  req_url :: string
  req_method :: string
  req_headers :: "(string \<times> string) list"
  req_body :: jsval   \<comment> \<open>the value handed to \<^verbatim>\<open>JSON.stringify\<close>; \<open>Undefined\<close> when there is no body\<close>

datatype effect = Confirm string | is_Fetch: Fetch request | ConsoleError

record response =
  status :: nat
  json :: "jsval option"   \<comment> \<open>what \<^verbatim>\<open>resp.json()\<close> resolves to; \<open>None\<close> when it rejects\<close>

definition resp_ok :: "response \<Rightarrow> bool" where
  \<comment> \<open>\<^verbatim>\<open>resp.ok\<close>\<close>
  "resp_ok r = (200 \<le> status r \<and> status r \<le> 299)"

datatype fetch_outcome = NetworkError | Response response

record config =
  cfg_url :: string
  cfg_model :: string
  cfg_template :: string
  cfg_prompt_style :: string

definition getConfig :: "app \<Rightarrow> config" where
  "getConfig s =
     \<lparr>cfg_url = trim (urlInput s),
      cfg_model = modelSelect s,
      cfg_template = templateSelect s,
      cfg_prompt_style = promptSelect s\<rparr>"

definition config_json :: "config \<Rightarrow> jsval" where
  "config_json c =
     Obj [(''url'', Str (cfg_url c)), (''model'', Str (cfg_model c)),
          (''template'', Str (cfg_template c)), (''prompt_style'', Str (cfg_prompt_style c))]"

definition post_json :: "string \<Rightarrow> jsval \<Rightarrow> request" where
  "post_json u b =
     \<lparr>req_url = u, req_method = ''POST'',
      req_headers = [(''Content-Type'', ''application/json'')], req_body = b\<rparr>"

definition fail_toast :: "string \<Rightarrow> jsval \<Rightarrow> app \<Rightarrow> app completion" where
  \<comment> \<open>the \<^verbatim>\<open>else\<close> branches: a toast with \<^verbatim>\<open>data.error\<close> or, when that is falsy, the fallback\<close>
  "fail_toast fallback data s =
     (case get_prop data ''error'' of
        Inl e \<Rightarrow> Thrown e s
      | Inr err \<Rightarrow>
          (case to_string (js_or err (Str fallback)) of
             Inl e \<Rightarrow> Thrown e s
           | Inr t \<Rightarrow> Returned (showToast (lit ''[x] '' @ t) s)))"

subsection \<open>handleManual\<close>

definition handleManual_begin :: "app \<Rightarrow> app \<times> effect list" where
  "handleManual_begin s =
     (let config = getConfig s in
      if cfg_url config = [] then (showToast (lit ''[warning] enter the article link first'') s, [])
      else
        (case appendLog (Str ''[phone] manual mode starting...'')
                (clearLogs (hidePreview (showLogPanel (setProcessing True s)))) of
           Thrown e s' \<Rightarrow> (s', [])
         | Returned s' \<Rightarrow> (s', [Fetch (post_json ''/api/generate'' (config_json config))])))"

definition handleManual_try :: "fetch_outcome \<Rightarrow> app \<Rightarrow> app completion" where
  "handleManual_try outcome s =
     (case outcome of
        NetworkError \<Rightarrow> Thrown NetworkFailure s
      | Response resp \<Rightarrow>
          (case json resp of
             None \<Rightarrow> Thrown SyntaxError s
           | Some data \<Rightarrow>
               if resp_ok resp then
                 (case get_prop data ''success'' of
                    Inl e \<Rightarrow> Thrown e s
                  | Inr success \<Rightarrow>
                      if truthy success then
                        (case showPreview data s of
                           Thrown e s' \<Rightarrow> Thrown e s'
                         | Returned s' \<Rightarrow>
                             Returned (showToast (lit ''[check] generated, please review the preview'') s'))
                      else fail_toast ''generation failed'' data s)
               else fail_toast ''generation failed'' data s))"

definition handleManual_resume :: "fetch_outcome \<Rightarrow> app \<Rightarrow> app \<times> effect list" where
  "handleManual_resume outcome s =
     (case handleManual_try outcome s of
        Returned s' \<Rightarrow> (setProcessing False s', [])
      | Thrown e s' \<Rightarrow>
          (setProcessing False
             (showToast (lit ''[x] request failed, check that the backend is running'') s'),
           [ConsoleError]))"

subsection \<open>handleAuto\<close>

definition CONFIRM_AUTO :: string where
  "CONFIRM_AUTO = ''[rocket] confirm auto publish? It will fetch, generate and publish to Xiaohongshu.''"

definition handleAuto_begin :: "bool \<Rightarrow> app \<Rightarrow> app \<times> effect list" where
  "handleAuto_begin answer s =
     (let config = getConfig s in
      if cfg_url config = [] then (showToast (lit ''[warning] enter the article link first'') s, [])
      else if \<not> answer then (s, [Confirm CONFIRM_AUTO])
      else
        (case appendLog (Str ''[robot] auto publish mode starting...'')
                (clearLogs (hidePreview (showLogPanel (setProcessing True s)))) of
           Thrown e s' \<Rightarrow> (s', [Confirm CONFIRM_AUTO])
         | Returned s' \<Rightarrow>
             (s', [Confirm CONFIRM_AUTO,
                   Fetch (post_json ''/api/auto-publish'' (config_json config))])))"

definition handleAuto_try :: "fetch_outcome \<Rightarrow> app \<Rightarrow> app completion" where
  "handleAuto_try outcome s =
     (case outcome of
        NetworkError \<Rightarrow> Thrown NetworkFailure s
      | Response resp \<Rightarrow>
          (case json resp of
             None \<Rightarrow> Thrown SyntaxError s
           | Some data \<Rightarrow>
               if resp_ok resp then
                 (case get_prop data ''success'' of
                    Inl e \<Rightarrow> Thrown e s
                  | Inr success \<Rightarrow>
                      if truthy success then
                        Returned (showToast (lit ''[check] auto publish succeeded!'') s)
                      else fail_toast ''publish failed'' data s)
               else fail_toast ''publish failed'' data s))"

definition handleAuto_resume :: "fetch_outcome \<Rightarrow> app \<Rightarrow> app \<times> effect list" where
  "handleAuto_resume outcome s =
     (case handleAuto_try outcome s of
        Returned s' \<Rightarrow> (setProcessing False s', [])
      | Thrown e s' \<Rightarrow>
          (setProcessing False (showToast (lit ''[x] request failed'') s'), [ConsoleError]))"

subsection \<open>handlePublish\<close>

definition CONFIRM_PUBLISH :: string where
  "CONFIRM_PUBLISH = ''[check] confirm publish to Xiaohongshu?''"

definition handlePublish_begin :: "bool \<Rightarrow> app \<Rightarrow> app \<times> effect list" where
  "handlePublish_begin answer s =
     (if \<not> answer then (s, [Confirm CONFIRM_PUBLISH])
      else
        (s\<lparr>btnPublish := \<lparr>disabled = True, innerHTML = LABEL_PUBLISHING\<rparr>\<rparr>,
         [Confirm CONFIRM_PUBLISH,
          Fetch (post_json ''/api/publish'' (Obj [(''auto_publish'', Bool True)]))]))"

definition publish_failed :: "app \<Rightarrow> app" where
  \<comment> \<open>\<^verbatim>\<open>btn.innerHTML = default label; btn.disabled = false\<close>, in the \<^verbatim>\<open>else\<close> and in the \<^verbatim>\<open>catch\<close>\<close>
  "publish_failed s = s\<lparr>btnPublish := \<lparr>disabled = False, innerHTML = LABEL_PUBLISH\<rparr>\<rparr>"

definition publish_fail_toast :: "jsval \<Rightarrow> app \<Rightarrow> app completion" where
  "publish_fail_toast data s =
     (case fail_toast ''publish failed'' data s of
        Thrown e s' \<Rightarrow> Thrown e s'
      | Returned s' \<Rightarrow> Returned (publish_failed s'))"

definition handlePublish_try :: "fetch_outcome \<Rightarrow> app \<Rightarrow> app completion" where
  "handlePublish_try outcome s =
     (case outcome of
        NetworkError \<Rightarrow> Thrown NetworkFailure s
      | Response resp \<Rightarrow>
          (case json resp of
             None \<Rightarrow> Thrown SyntaxError s
           | Some data \<Rightarrow>
               if resp_ok resp then
                 (case get_prop data ''success'' of
                    Inl e \<Rightarrow> Thrown e s
                  | Inr success \<Rightarrow>
                      if truthy success then
                        (let s = showToast (lit ''[check] published!'') s in
                         Returned (s\<lparr>btnPublish := (btnPublish s)\<lparr>innerHTML := LABEL_PUBLISHED\<rparr>\<rparr>))
                      else publish_fail_toast data s)
               else publish_fail_toast data s))"

definition handlePublish_resume :: "fetch_outcome \<Rightarrow> app \<Rightarrow> app \<times> effect list" where
  "handlePublish_resume outcome s =
     (case handlePublish_try outcome s of
        Returned s' \<Rightarrow> (s', [])
      | Thrown e s' \<Rightarrow> (publish_failed (showToast (lit ''[x] request failed'') s'), []))"

section \<open>The cloud console\<close>

text \<open>
  The state of \<^verbatim>\<open>docs/app.js\<close>: \<^verbatim>\<open>localStorage\<close> as a map from keys to strings, the form
  fields, the trigger button, the settings panel (\<open>settingsOpen\<close>: the class \<^verbatim>\<open>open\<close>), and the
  pending timers. This script has no processing flag; the trigger button is its only guard.
\<close>

datatype cloud_callback = LoadRuns | HideCloudToast

record cloud =
  c_now :: nat
  localStorage :: "string \<rightharpoonup> string"
  repoInput :: string
  patInput :: string
  c_urlInput :: string
  c_modelSelect :: string
  c_templateSelect :: string
  c_promptSelect :: string
  btnTrigger :: button
  settingsOpen :: bool
  arrow :: string
  statusMsg :: jstext
  c_toastText :: jstext
  c_toastShow :: bool
  c_timeouts :: "(nat \<times> cloud_callback) list"

record settings =
  repo :: string
  pat :: string

definition getItem_or_empty :: "cloud \<Rightarrow> string \<Rightarrow> string" where
  \<comment> \<open>\<^verbatim>\<open>localStorage.getItem(k) || ''\<close>\<close>
  "getItem_or_empty s k = (case localStorage s k of None \<Rightarrow> [] | Some v \<Rightarrow> v)"

definition getSettings :: "cloud \<Rightarrow> settings" where
  "getSettings s = \<lparr>repo = getItem_or_empty s ''xhs_repo'', pat = getItem_or_empty s ''xhs_pat''\<rparr>"

definition setItem :: "string \<Rightarrow> string \<Rightarrow> cloud \<Rightarrow> cloud" where
  "setItem k v s = s\<lparr>localStorage := (localStorage s)(k \<mapsto> v)\<rparr>"

definition cloud_showToast :: "jstext \<Rightarrow> cloud \<Rightarrow> cloud" where
  "cloud_showToast msg s =
     s\<lparr>c_toastText := msg, c_toastShow := True,
       c_timeouts := c_timeouts s @ [(c_now s + 3000, HideCloudToast)]\<rparr>"

definition showSettings :: "cloud \<Rightarrow> cloud" where
  "showSettings s = s\<lparr>settingsOpen := True, arrow := ''[up]''\<rparr>"

definition github_headers :: "string \<Rightarrow> (string \<times> string) list" where
  "github_headers p =
     [(''Authorization'', ''token '' @ p), (''Accept'', ''application/vnd.github.v3+json'')]"

definition loadRuns_begin :: "cloud \<Rightarrow> cloud \<times> effect list" where
  \<comment> \<open>\<^verbatim>\<open>loadRuns\<close> up to its \<^verbatim>\<open>await fetch\<close>; what follows only rewrites the list of runs\<close>
  "loadRuns_begin s =
     (let st = getSettings s in
      if repo st = [] \<or> pat st = [] then (s, [])
      else
        (s, [Fetch \<lparr>req_url = ''https://api.github.com/repos/'' @ repo st @ ''/actions/runs?per_page=5'',
                    req_method = ''GET'', req_headers = github_headers (pat st),
                    req_body = Undefined\<rparr>]))"

definition saveSettings :: "cloud \<Rightarrow> cloud \<times> effect list" where
  "saveSettings s =
     (let r = trim (repoInput s);
          p = trim (patInput s);
          s = (if r \<noteq> [] then setItem ''xhs_repo'' r s else s);
          s = (if p \<noteq> [] then setItem ''xhs_pat'' p s else s);
          s = cloud_showToast (lit ''[disk] settings saved'') s
      in if r \<noteq> [] \<and> p \<noteq> [] then loadRuns_begin s else (s, []))"


definition LABEL_TRIGGER :: string where
  "LABEL_TRIGGER = ''<span>[rocket]</span> <span>trigger cloud publish</span>''"

definition triggerAction_begin :: "cloud \<Rightarrow> cloud \<times> effect list" where
  "triggerAction_begin s =
     (let st = getSettings s in
      if repo st = [] \<or> pat st = [] then
        (showSettings (cloud_showToast (lit ''[warning] configure Repo and PAT first'') s), [])
      else
        (let u = trim (c_urlInput s) in
         if u = [] then (cloud_showToast (lit ''[warning] enter the article link'') s, [])
         else
           (s\<lparr>btnTrigger := \<lparr>disabled = True, innerHTML = ''[rocket] sending...''\<rparr>\<rparr>,
            [Fetch \<lparr>req_url = ''https://api.github.com/repos/'' @ repo st @ ''/dispatches'',
                    req_method = ''POST'', req_headers = github_headers (pat st),
                    req_body =
                      Obj [(''event_type'', Str ''publish_trigger''),
                           (''client_payload'',
                            Obj [(''url'', Str u), (''model'', Str (c_modelSelect s)),
                                 (''template'', Str (c_templateSelect s)),
                                 (''prompt_style'', Str (c_promptSelect s))])]\<rparr>])))"



section \<open>Service workers\<close>

text \<open>
  Cache storage is the list of named caches in creation order, a cache the list of its
  entries (request URL, stored response). The network is a partial function: \<open>None\<close> where no
  response can be had. Requests are read requests, matched by URL. The two workers differ in
  the manifest, in how its entries resolve against the worker's location, and in the guard
  of the fetch listener.
\<close>

type_synonym http_response = string
type_synonym cache = "(string \<times> http_response) list"
type_synonym cache_storage = "(string \<times> cache) list"
type_synonym network = "string \<rightharpoonup> http_response"

definition CACHE_NAME :: string where
  "CACHE_NAME = ''xhs-publisher-v1''"

definition URLS_TO_CACHE_api :: "string list" where
  "URLS_TO_CACHE_api = [''/'', ''/static/style.css'', ''/static/app.js'', ''/static/manifest.json'']"

definition URLS_TO_CACHE_docs :: "string list" where
  "URLS_TO_CACHE_docs =
     [''./'', ''./index.html'', ''./style.css'', ''./app.js'', ''./manifest.json'',
      ''./icon-192.png'', ''./icon-512.png'']"

definition resolve_api :: "string \<Rightarrow> string \<Rightarrow> string" where
  \<comment> \<open>an entry that starts with \<^verbatim>\<open>/\<close>, against the origin (scheme, host, port) of the worker\<close>
  "resolve_api origin entry = origin @ entry"

definition resolve_docs :: "string \<Rightarrow> string \<Rightarrow> string" where
  \<comment> \<open>an entry that starts with \<^verbatim>\<open>./\<close>, against the directory of the worker, which ends with \<^verbatim>\<open>/\<close>\<close>
  "resolve_docs dir entry = dir @ drop 2 entry"

fun caches_match :: "cache_storage \<Rightarrow> string \<Rightarrow> http_response option" where
  \<comment> \<open>\<^verbatim>\<open>caches.match\<close>: the first cache, in creation order, that holds the request\<close>
  "caches_match [] u = None"
| "caches_match ((name, c) # cs) u =
     (case map_of c u of Some r \<Rightarrow> Some r | None \<Rightarrow> caches_match cs u)"

definition caches_open :: "string \<Rightarrow> cache_storage \<Rightarrow> cache_storage" where
  "caches_open name cs = (if name \<in> set (map fst cs) then cs else cs @ [(name, [])])"

fun fetch_all :: "network \<Rightarrow> string list \<Rightarrow> cache option" where
  \<comment> \<open>the requests of \<^verbatim>\<open>cache.addAll\<close>: all of them succeed, or the call rejects\<close>
  "fetch_all net [] = Some []"
| "fetch_all net (u # us) =
     (case net u of None \<Rightarrow> None
      | Some r \<Rightarrow> (case fetch_all net us of None \<Rightarrow> None | Some c \<Rightarrow> Some ((u, r) # c)))"

definition cache_put_all :: "cache \<Rightarrow> cache \<Rightarrow> cache" where
  \<comment> \<open>each fetched entry replaces the entry of the same URL\<close>
  "cache_put_all new c = new @ filter (\<lambda>e. fst e \<notin> set (map fst new)) c"

definition sw_install :: "string list \<Rightarrow> network \<Rightarrow> cache_storage \<Rightarrow> bool \<times> cache_storage" where
  \<comment> \<open>the install listener on the resolved manifest; the boolean says whether the install succeeded\<close>
  "sw_install urls net cs =
     (let cs = caches_open CACHE_NAME cs in
      case fetch_all net urls of
        None \<Rightarrow> (False, cs)
      | Some new \<Rightarrow>
          (True, map (\<lambda>(name, c). if name = CACHE_NAME then (name, cache_put_all new c) else (name, c)) cs))"

definition sw_install_api :: "string \<Rightarrow> network \<Rightarrow> cache_storage \<Rightarrow> bool \<times> cache_storage" where
  "sw_install_api origin = sw_install (map (resolve_api origin) URLS_TO_CACHE_api)"

definition sw_install_docs :: "string \<Rightarrow> network \<Rightarrow> cache_storage \<Rightarrow> bool \<times> cache_storage" where
  "sw_install_docs dir = sw_install (map (resolve_docs dir) URLS_TO_CACHE_docs)"

definition sw_activate :: "cache_storage \<Rightarrow> cache_storage" where
  "sw_activate cs = filter (\<lambda>(name, c). name = CACHE_NAME) cs"

text \<open>
  What a fetch listener does with a request: it returns without \<^verbatim>\<open>respondWith\<close>, and the
  browser goes to the network by itself; or it responds, from a cache, from the network, or
  with the failure of the network.
\<close>

datatype served = FromCache http_response | FromNetwork http_response | Failed

datatype fetch_result = NotIntercepted | Responded served

definition cache_first :: "string \<Rightarrow> network \<Rightarrow> cache_storage \<Rightarrow> served" where
  \<comment> \<open>\<^verbatim>\<open>caches.match(request).then(r => r || fetch(request))\<close>\<close>
  "cache_first u net cs =
     (case caches_match cs u of
        Some r \<Rightarrow> FromCache r
      | None \<Rightarrow> (case net u of Some r \<Rightarrow> FromNetwork r | None \<Rightarrow> Failed))"

definition sw_fetch_api :: "string \<Rightarrow> network \<Rightarrow> cache_storage \<Rightarrow> fetch_result \<times> cache_storage" where
  \<comment> \<open>\<^verbatim>\<open>api/static/sw.js\<close>; the second component is cache storage after the listener\<close>
  "sw_fetch_api u net cs =
     (if str_includes u ''/api/'' \<or> str_includes u ''/ws/'' then (NotIntercepted, cs)
      else (Responded (cache_first u net cs), cs))"

definition sw_fetch_docs :: "string \<Rightarrow> network \<Rightarrow> cache_storage \<Rightarrow> fetch_result \<times> cache_storage" where
  \<comment> \<open>\<^verbatim>\<open>docs/sw.js\<close>\<close>
  "sw_fetch_docs u net cs =
     (if str_includes u ''api.github.com'' then (NotIntercepted, cs)
      else (Responded (cache_first u net cs), cs))"

section \<open>Events of the backend page\<close>

text \<open>
  What can happen to the page once it is loaded, one event at a time (the script runs on one
  thread). The browser delivers to a socket at most one \<^verbatim>\<open>close\<close> event, after which the
  socket is \<open>CLOSED\<close> for good, \<^verbatim>\<open>open\<close> only to a connecting socket and messages only to an
  open one. A timeout fires once, not before it is due, and is then gone; an interval fires
  any number of times. The user's clicks run the first part of a handler, the settling of a
  request its second part; \<open>toast\<close> stands for the other callers of \<^verbatim>\<open>showToast\<close>
  (\<^verbatim>\<open>loadConfig\<close>, the paste button), \<open>typing\<close> for edits of the link field. A handler that
  throws leaves the state it had reached.
\<close>

definition sock_close :: "nat \<Rightarrow> app \<Rightarrow> app" where
  \<comment> \<open>socket \<open>i\<close> becomes \<open>CLOSED\<close> and its \<^verbatim>\<open>onclose\<close> runs\<close>
  "sock_close i s = ws_onclose (s\<lparr>socks := (socks s)[i := CLOSED]\<rparr>)"

definition sock_open :: "nat \<Rightarrow> app \<Rightarrow> app" where
  "sock_open i s = ws_onopen (s\<lparr>socks := (socks s)[i := OPEN]\<rparr>)"

definition fire_timeout :: "nat \<Rightarrow> app \<Rightarrow> app" where
  \<comment> \<open>the pending timeout at position \<open>k\<close> is removed and its callback runs\<close>
  "fire_timeout k s =
     run_callback (snd (timeouts s ! k))
       (s\<lparr>timeouts := take k (timeouts s) @ drop (Suc k) (timeouts s)\<rparr>)"

inductive step :: "app \<Rightarrow> app \<Rightarrow> bool" where
  tick: "step s (s\<lparr>now := now s + d\<rparr>)"
| opened: "i < length (socks s) \<Longrightarrow> socks s ! i = CONNECTING \<Longrightarrow> step s (sock_open i s)"
| message: "i < length (socks s) \<Longrightarrow> socks s ! i = OPEN \<Longrightarrow>
     step s (state_of (ws_onmessage parsed s))"
| failed: "i < length (socks s) \<Longrightarrow> socks s ! i \<noteq> CLOSED \<Longrightarrow> step s (ws_onerror s)"
| closing: "i < length (socks s) \<Longrightarrow> socks s ! i \<noteq> CLOSED \<Longrightarrow>
     step s (s\<lparr>socks := (socks s)[i := CLOSING]\<rparr>)"
| closed: "i < length (socks s) \<Longrightarrow> socks s ! i \<noteq> CLOSED \<Longrightarrow> step s (sock_close i s)"
| timeout: "k < length (timeouts s) \<Longrightarrow> fst (timeouts s ! k) \<le> now s \<Longrightarrow> step s (fire_timeout k s)"
| interval: "(p, cb) \<in> set (intervals s) \<Longrightarrow> step s (run_callback cb s)"
| toast: "step s (showToast m s)"
| typing: "step s (s\<lparr>urlInput := u\<rparr>)"
| manual_begin: "step s (fst (handleManual_begin s))"
| manual_resume: "step s (fst (handleManual_resume outcome s))"
| auto_begin: "step s (fst (handleAuto_begin answer s))"
| auto_resume: "step s (fst (handleAuto_resume outcome s))"
| publish_begin: "step s (fst (handlePublish_begin answer s))"
| publish_resume: "step s (fst (handlePublish_resume outcome s))"

definition loaded :: "app \<Rightarrow> bool" where
  \<comment> \<open>the page before \<^verbatim>\<open>DOMContentLoaded\<close>: the initial values of the module variables, no socket, no timer\<close>
  "loaded s =
     (ws s = None \<and> \<not> isProcessing s \<and> socks s = [] \<and> timeouts s = [] \<and> intervals s = []
      \<and> sent s = [])"

inductive reachable :: "app \<Rightarrow> bool" where
  start: "loaded s \<Longrightarrow> reachable (connectWebSocket s)"
| later: "reachable s \<Longrightarrow> step s s' \<Longrightarrow> reachable s'"

definition reconnects :: "app \<Rightarrow> (nat \<times> callback) list" where
  \<comment> \<open>the pending reconnect timers\<close>
  "reconnects s = filter (\<lambda>t. snd t = ConnectWebSocket) (timeouts s)"

definition live_socks :: "app \<Rightarrow> readyState list" where
  \<comment> \<open>the sockets whose \<^verbatim>\<open>close\<close> event is still to come\<close>
  "live_socks s = filter (\<lambda>r. r \<noteq> CLOSED) (socks s)"

section \<open>Requests in flight\<close>

text \<open>
  The relation \<open>step\<close> lets either part of a handler run at any time, which is more than the
  page allows. What the processing flag guards needs the order of the parts, so the
  relation \<open>page_step\<close> keeps, next to the state, the requests of the job launcher that are in
  flight. The scripts do not bind the three handlers themselves; each is taken to be bound
  to the click of the button it is named after (\<^verbatim>\<open>handleManual\<close> to \<^verbatim>\<open>btnManual\<close>, \<^verbatim>\<open>handleAuto\<close> to
  \<^verbatim>\<open>btnAuto\<close>, \<^verbatim>\<open>handlePublish\<close> to \<^verbatim>\<open>btnPublish\<close>), and a disabled button delivers no click. So
  a click reaches a handler only when its button is not disabled; the first part of the
  handler puts its request in flight when it issues one; the second part runs only for a
  request in flight, which is then settled. The events that are not parts of a handler are
  those of \<open>step\<close>, collected in \<open>env_step\<close>.
\<close>

inductive env_step :: "app \<Rightarrow> app \<Rightarrow> bool" where
  tick: "env_step s (s\<lparr>now := now s + d\<rparr>)"
| opened: "i < length (socks s) \<Longrightarrow> socks s ! i = CONNECTING \<Longrightarrow> env_step s (sock_open i s)"
| message: "i < length (socks s) \<Longrightarrow> socks s ! i = OPEN \<Longrightarrow>
     env_step s (state_of (ws_onmessage parsed s))"
| failed: "i < length (socks s) \<Longrightarrow> socks s ! i \<noteq> CLOSED \<Longrightarrow> env_step s (ws_onerror s)"
| closing: "i < length (socks s) \<Longrightarrow> socks s ! i \<noteq> CLOSED \<Longrightarrow>
     env_step s (s\<lparr>socks := (socks s)[i := CLOSING]\<rparr>)"
| closed: "i < length (socks s) \<Longrightarrow> socks s ! i \<noteq> CLOSED \<Longrightarrow> env_step s (sock_close i s)"
| timeout: "k < length (timeouts s) \<Longrightarrow> fst (timeouts s ! k) \<le> now s \<Longrightarrow>
     env_step s (fire_timeout k s)"
| interval: "(p, cb) \<in> set (intervals s) \<Longrightarrow> env_step s (run_callback cb s)"
| toast: "env_step s (showToast m s)"
| typing: "env_step s (s\<lparr>urlInput := u\<rparr>)"

datatype job = ManualJob | AutoJob | PublishJob

definition issued :: "job \<Rightarrow> effect list \<Rightarrow> job list" where
  \<comment> \<open>the request the first part of a handler put in flight, if it issued one\<close>
  "issued j fx = (if list_ex is_Fetch fx then [j] else [])"

inductive page_step :: "app \<times> job list \<Rightarrow> app \<times> job list \<Rightarrow> bool" where
  env: "env_step s s' \<Longrightarrow> page_step (s, p) (s', p)"
| manual_click: "\<not> disabled (btnManual s) \<Longrightarrow>
     page_step (s, p)
       (fst (handleManual_begin s), p @ issued ManualJob (snd (handleManual_begin s)))"
| manual_settled: "ManualJob \<in> set p \<Longrightarrow>
     page_step (s, p) (fst (handleManual_resume outcome s), remove1 ManualJob p)"
| auto_click: "\<not> disabled (btnAuto s) \<Longrightarrow>
     page_step (s, p)
       (fst (handleAuto_begin answer s), p @ issued AutoJob (snd (handleAuto_begin answer s)))"
| auto_settled: "AutoJob \<in> set p \<Longrightarrow>
     page_step (s, p) (fst (handleAuto_resume outcome s), remove1 AutoJob p)"
| publish_click: "\<not> disabled (btnPublish s) \<Longrightarrow>
     page_step (s, p)
       (fst (handlePublish_begin answer s),
        p @ issued PublishJob (snd (handlePublish_begin answer s)))"
| publish_settled: "PublishJob \<in> set p \<Longrightarrow>
     page_step (s, p) (fst (handlePublish_resume outcome s), remove1 PublishJob p)"

definition ready :: "app \<Rightarrow> bool" where
  \<comment> \<open>a loaded page whose two job buttons are enabled, as buttons are unless the markup says otherwise\<close>
  "ready s = (loaded s \<and> \<not> disabled (btnManual s) \<and> \<not> disabled (btnAuto s))"

inductive page_reachable :: "app \<times> job list \<Rightarrow> bool" where
  start: "ready s \<Longrightarrow> page_reachable (connectWebSocket s, [])"
| later: "page_reachable x \<Longrightarrow> page_step x y \<Longrightarrow> page_reachable y"


section \<open>Events of the cloud console\<close>







section \<open>Initial states\<close>

text \<open>
  The backend page and the cloud console before their scripts ran: the form empty, the
  buttons enabled with their default labels, nothing shown, nothing stored.
\<close>

definition page0 :: app where
  \<comment> \<open>a page just loaded, the form empty, the buttons idle\<close>
  "page0 =
     \<lparr>now = 0, socks = [], ws = None, timeouts = [], intervals = [], sent = [],
      isProcessing = False, connectionStatus = [], statusDot = [],
      urlInput = [], modelSelect = [], templateSelect = [], promptSelect = [],
      btnManual = \<lparr>disabled = False, innerHTML = LABEL_MANUAL\<rparr>,
      btnAuto = \<lparr>disabled = False, innerHTML = LABEL_AUTO\<rparr>,
      btnPublish = \<lparr>disabled = False, innerHTML = LABEL_PUBLISH\<rparr>,
      progressWrapper = False, progressBar = Width [], progressText = [],
      logPanel = False, logContainer = [],
      previewPanel = False, previewTitle = [], previewSubtitle = [], imageCarousel = [],
      imageViewer = False, viewerImage = [], toastText = [], toastShow = False\<rparr>"

definition cloud0 :: cloud where
  \<comment> \<open>the cloud console just loaded, nothing stored\<close>
  "cloud0 =
     \<lparr>c_now = 0, localStorage = Map.empty, repoInput = [], patInput = [], c_urlInput = [],
      c_modelSelect = [], c_templateSelect = [], c_promptSelect = [],
      btnTrigger = \<lparr>disabled = False, innerHTML = LABEL_TRIGGER\<rparr>,
      settingsOpen = False, arrow = ''[down]'', statusMsg = [],
      c_toastText = [], c_toastShow = False, c_timeouts = []\<rparr>"

section \<open>Auxiliary notions for the proofs\<close>

text \<open>
  The part of the state the session controller works on: sockets, \<^verbatim>\<open>ws\<close>, heartbeat
  intervals, frames sent, pending reconnect timers, and the clock.
\<close>

definition session :: "app \<Rightarrow> readyState list \<times> nat option \<times> (nat \<times> callback) list \<times> (nat \<times> string) list \<times> (nat \<times> callback) list \<times> nat" where
  "session s = (socks s, ws s, intervals s, sent s, reconnects s, now s)"

text \<open>
  The part of the state the job launcher guards its requests with: the processing flag and
  the two job buttons.
\<close>

definition launcher :: "app \<Rightarrow> bool \<times> button \<times> button" where
  "launcher s = (isProcessing s, btnManual s, btnAuto s)"

text \<open>
  The invariant of the reconnect cycle: pending reconnect timers and sockets that have not
  closed yet are one in total.
\<close>

definition balanced :: "app \<Rightarrow> bool" where
  "balanced s = (length (reconnects s) + length (live_socks s) = 1)"


text \<open>
  The run in which every connection attempt fails at once: socket \<open>n\<close> closes, 3000 ms pass,
  the reconnect timer fires. \<open>retry_run n\<close> is the page after \<open>n\<close> such rounds.
\<close>

fun retry_run :: "nat \<Rightarrow> app" where
  "retry_run 0 = connectWebSocket page0"
| "retry_run (Suc n) =
     (let s = sock_close n (retry_run n) in fire_timeout 0 (s\<lparr>now := now s + 3000\<rparr>))"


text \<open>
  The body of a generate response as the interface of the backend gives it,
  \<^verbatim>\<open>{success, caption_title, cover_title, images: [url], error?}\<close>, each of the three fields of
  the preview possibly absent: an object whose \<^verbatim>\<open>caption_title\<close> and \<^verbatim>\<open>cover_title\<close>, where
  present, are strings and whose \<^verbatim>\<open>images\<close>, where present, is an array of strings.
\<close>

definition absent_or :: "(jsval \<Rightarrow> bool) \<Rightarrow> jsval \<Rightarrow> bool" where
  "absent_or P v = (v = Undefined \<or> P v)"

definition is_urls :: "jsval \<Rightarrow> bool" where
  "is_urls v = (case v of Arr xs \<Rightarrow> list_all is_Str xs | _ \<Rightarrow> False)"

fun generate_response :: "jsval \<Rightarrow> bool" where
  "generate_response (Obj kvs) =
     (absent_or is_Str (case map_of kvs ''caption_title'' of None \<Rightarrow> Undefined | Some v \<Rightarrow> v)
      \<and> absent_or is_Str (case map_of kvs ''cover_title'' of None \<Rightarrow> Undefined | Some v \<Rightarrow> v)
      \<and> absent_or is_urls (case map_of kvs ''images'' of None \<Rightarrow> Undefined | Some v \<Rightarrow> v))"
| "generate_response v = False"

section \<open>Example states\<close>

text \<open>
  States and inputs for the concrete instances below: a page whose first socket has opened; a
  page with a link typed in, padded with blanks, and the same page connected and with a
  generate request in flight; a publish response that reports success and the page after such
  a publish; a cloud console with both settings stored and a link typed in, the same with a
  blank link, the same loaded and with its dispatch in flight, and one with a stored token,
  another stored key, a repository typed in with blanks around it and a blank token field;
  the network down, and the network up, where every URL has some content; cache storage after
  each worker was installed on an empty storage with the network up; a generate response
  whose images are a string, and one with a title and one image; a progress frame that
  carries the number \<open>r\<close>.
\<close>

definition connected :: app where
  "connected = sock_open 0 (connectWebSocket page0)"

definition page_url :: app where
  "page_url = page0\<lparr>urlInput := '' https://example.com/a ''\<rparr>"


definition publish_ok :: fetch_outcome where
  "publish_ok = Response \<lparr>status = 200, json = Some (Obj [(''success'', Bool True)])\<rparr>"

definition published :: app where
  "published = fst (handlePublish_resume publish_ok (fst (handlePublish_begin True page0)))"

definition cloud_ready :: cloud where
  "cloud_ready =
     cloud0\<lparr>localStorage := [''xhs_repo'' \<mapsto> ''me/repo'', ''xhs_pat'' \<mapsto> ''tok''],
            c_urlInput := ''https://example.com/a''\<rparr>"

definition cloud_blank :: cloud where
  "cloud_blank = cloud_ready\<lparr>c_urlInput := ''  ''\<rparr>"


definition stored :: cloud where
  "stored =
     cloud0\<lparr>localStorage := [''xhs_pat'' \<mapsto> ''tok'', ''theme'' \<mapsto> ''dark''],
            repoInput := '' me/repo '', patInput := ''  ''\<rparr>"

definition offline :: network where
  "offline u = None"

definition online :: network where
  "online u = Some (''content of '' @ u)"

definition api_installed :: cache_storage where
  "api_installed = snd (sw_install_api ''https://h'' online [])"

definition docs_installed :: cache_storage where
  "docs_installed = snd (sw_install_docs ''https://u.github.io/xhs/'' online [])"

definition bad_images :: jsval where
  "bad_images = Obj [(''success'', Bool True), (''caption_title'', Str ''T''), (''images'', Str ''abc'')]"

definition preview_T :: jsval where
  "preview_T = Obj [(''success'', Bool True), (''caption_title'', Str ''T''), (''images'', Arr [Str ''i1.png''])]"

definition progress_frame :: "rat \<Rightarrow> jsval" where
  "progress_frame r = Obj [(''type'', Str ''progress''), (''value'', Num (Fin r))]"

section \<open>Basic facts\<close>

lemma state_of_simps [simp]: "state_of (Returned s) = s" "state_of (Thrown e s) = s"
  by (simp_all add: state_of_def)

lemma fst_completion:
  "fst (case c of Returned s' \<Rightarrow> (s', a) | Thrown e s' \<Rightarrow> (s', b)) = state_of c"
  by (cases c) simp_all

lemma page0_fields:
  "logContainer page0 = []" "progressText page0 = []" "progressBar page0 = Width []"
  "isProcessing page0 = False" "urlInput page0 = []" "timeouts page0 = []" "socks page0 = []"
  "btnPublish page0 = \<lparr>disabled = False, innerHTML = LABEL_PUBLISH\<rparr>"
  "btnManual page0 = \<lparr>disabled = False, innerHTML = LABEL_MANUAL\<rparr>"
  "btnAuto page0 = \<lparr>disabled = False, innerHTML = LABEL_AUTO\<rparr>"
  by (simp_all add: page0_def)

lemma loaded_page0: "loaded page0"
  by (simp add: loaded_def page0_def)

lemma showToast_eq:
  "showToast m s = s\<lparr>toastText := m, toastShow := True, timeouts := timeouts s @ [(now s + 3000, HideToast)]\<rparr>"
  by (simp add: showToast_def setTimeout_def)

lemma cloud_showToast_eq:
  "cloud_showToast m s = s\<lparr>c_toastText := m, c_toastShow := True,
       c_timeouts := c_timeouts s @ [(c_now s + 3000, HideCloudToast)]\<rparr>"
  by (simp add: cloud_showToast_def)

lemma appendLog_Str: "appendLog (Str m) s = Returned (s\<lparr>logContainer := logContainer s @ [lit m]\<rparr>)"
  by (simp add: appendLog_def text_content_def)

section \<open>What the functions of the page leave alone\<close>

text \<open>
  The UI helpers and the handlers of the job launcher do not write the part of the state
  the session controller works on; the UI helpers other than \<^verbatim>\<open>setProcessing\<close>, and the
  functions of the session controller, do not write the flag and the job buttons.
\<close>

lemma session_helpers [simp]:
  "session (showToast m s) = session s"
  "session (setProcessing b s) = session s"
  "session (showLogPanel s) = session s"
  "session (hidePreview s) = session s"
  "session (clearLogs s) = session s"
  "session (hideToast s) = session s"
  "session (rearm_publish s) = session s"
  "session (publish_failed s) = session s"
  by (simp_all add: session_def reconnects_def showToast_def setTimeout_def setProcessing_def Let_def
      showLogPanel_def hidePreview_def clearLogs_def hideToast_def
      rearm_publish_def publish_failed_def)

lemma launcher_helpers [simp]:
  "launcher (showToast m s) = launcher s"
  "launcher (showLogPanel s) = launcher s"
  "launcher (hidePreview s) = launcher s"
  "launcher (clearLogs s) = launcher s"
  "launcher (hideToast s) = launcher s"
  "launcher (rearm_publish s) = launcher s"
  "launcher (publish_failed s) = launcher s"
  "launcher (heartbeat s) = launcher s"
  "launcher (connectWebSocket s) = launcher s"
  "launcher (ws_onopen s) = launcher s"
  "launcher (ws_onclose s) = launcher s"
  "launcher (ws_onerror s) = launcher s"
  by (simp_all add: launcher_def showToast_def setTimeout_def Let_def
      showLogPanel_def hidePreview_def clearLogs_def hideToast_def
      rearm_publish_def publish_failed_def heartbeat_def connectWebSocket_def setInterval_def
      ws_onopen_def ws_onclose_def ws_onerror_def split: option.splits)

lemma appendLog_frame:
  "session (state_of (appendLog v s)) = session s"
  "launcher (state_of (appendLog v s)) = launcher s"
  by (simp_all add: appendLog_def session_def launcher_def reconnects_def split: sum.splits)

lemma updateProgress_frame:
  "session (state_of (updateProgress v s)) = session s"
  "launcher (state_of (updateProgress v s)) = launcher s"
  by (simp_all add: updateProgress_def Let_def session_def launcher_def reconnects_def
      split: sum.splits)

lemma append_images_frame:
  "session (state_of (append_images i urls s)) = session s
   \<and> launcher (state_of (append_images i urls s)) = launcher s
   \<and> btnPublish (state_of (append_images i urls s)) = btnPublish s
   \<and> previewPanel (state_of (append_images i urls s)) = previewPanel s"
proof (induction urls arbitrary: i s)
  case Nil
  show ?case by simp
next
  case (Cons url urls)
  show ?case
  proof (cases "to_string url")
    case (Inl e)
    then show ?thesis by simp
  next
    case (Inr src)
    then show ?thesis
      using Cons.IH by (simp add: session_def launcher_def reconnects_def)
  qed
qed

lemma showPreview_images_frame:
  "session (state_of (showPreview_images d s)) = session s"
  "launcher (state_of (showPreview_images d s)) = launcher s"
proof -
  have "session (state_of (case c of Thrown e s' \<Rightarrow> Thrown e s' | Returned s' \<Rightarrow> Returned (rearm_publish s')))
      = session (state_of c)
    \<and> launcher (state_of (case c of Thrown e s' \<Rightarrow> Thrown e s' | Returned s' \<Rightarrow> Returned (rearm_publish s')))
      = launcher (state_of c)" for c :: "app completion"
    by (cases c) simp_all
  then show "session (state_of (showPreview_images d s)) = session s"
    "launcher (state_of (showPreview_images d s)) = launcher s"
    using append_images_frame
    by (simp_all add: showPreview_images_def Let_def session_def launcher_def reconnects_def
        split: sum.splits)
qed

lemma showPreview_frame:
  "session (state_of (showPreview d s)) = session s"
  "launcher (state_of (showPreview d s)) = launcher s"
proof -
  have sub: "session (state_of (showPreview_subtitle d s)) = session s
      \<and> launcher (state_of (showPreview_subtitle d s)) = launcher s" for s
    using showPreview_images_frame
    by (simp add: showPreview_subtitle_def session_def launcher_def reconnects_def
        split: sum.splits)
  show "session (state_of (showPreview d s)) = session s"
    "launcher (state_of (showPreview d s)) = launcher s"
    using sub
    by (simp_all add: showPreview_def session_def launcher_def reconnects_def split: sum.splits)
qed

lemma fail_toast_frame:
  "session (state_of (fail_toast m d s)) = session s"
  "launcher (state_of (fail_toast m d s)) = launcher s"
  "btnPublish (state_of (fail_toast m d s)) = btnPublish s"
  by (simp_all add: fail_toast_def showToast_eq session_def launcher_def reconnects_def
      split: sum.splits)

lemma session_manual_try: "session (state_of (handleManual_try outcome s)) = session s"
proof -
  have "session (state_of (case showPreview d s of Returned s' \<Rightarrow> Returned (showToast m s') | Thrown e s' \<Rightarrow> Thrown e s')) = session (state_of (showPreview d s))" for d m
    by (simp split: completion.splits)
  then show ?thesis
    by (simp add: handleManual_try_def showPreview_frame fail_toast_frame
        split: fetch_outcome.splits option.splits sum.splits)
qed

lemma session_manual_resume [simp]: "session (fst (handleManual_resume outcome s)) = session s"
proof -
  have "session (fst (handleManual_resume outcome s)) = session (state_of (handleManual_try outcome s))"
    by (simp add: handleManual_resume_def split: completion.splits)
  then show ?thesis by (simp add: session_manual_try)
qed

lemma session_manual_begin [simp]: "session (fst (handleManual_begin s)) = session s"
  by (simp add: handleManual_begin_def Let_def appendLog_Str)
     (simp add: session_def reconnects_def setProcessing_def showLogPanel_def hidePreview_def clearLogs_def)

lemma session_auto_try: "session (state_of (handleAuto_try outcome s)) = session s"
  by (simp add: handleAuto_try_def fail_toast_frame split: fetch_outcome.splits option.splits sum.splits)

lemma session_auto_resume [simp]: "session (fst (handleAuto_resume outcome s)) = session s"
proof -
  have "session (fst (handleAuto_resume outcome s)) = session (state_of (handleAuto_try outcome s))"
    by (simp add: handleAuto_resume_def split: completion.splits)
  then show ?thesis by (simp add: session_auto_try)
qed

lemma session_auto_begin [simp]: "session (fst (handleAuto_begin a s)) = session s"
  by (simp add: handleAuto_begin_def Let_def appendLog_Str)
     (simp add: session_def reconnects_def setProcessing_def showLogPanel_def hidePreview_def clearLogs_def)

lemma publish_try_frame:
  "session (state_of (handlePublish_try outcome s)) = session s"
  "launcher (state_of (handlePublish_try outcome s)) = launcher s"
proof -
  have a: "session (state_of (publish_fail_toast d s)) = session (state_of (fail_toast ''publish failed'' d s))
      \<and> launcher (state_of (publish_fail_toast d s)) = launcher (state_of (fail_toast ''publish failed'' d s))" for d
    by (simp add: publish_fail_toast_def split: completion.splits)
  have b: "session ((showToast m s)\<lparr>btnPublish := b\<rparr>) = session s
      \<and> launcher ((showToast m s)\<lparr>btnPublish := b\<rparr>) = launcher s" for m b
    by (simp add: session_def launcher_def reconnects_def showToast_def setTimeout_def)
  show "session (state_of (handlePublish_try outcome s)) = session s"
    "launcher (state_of (handlePublish_try outcome s)) = launcher s"
    by (simp_all add: handlePublish_try_def Let_def a b fail_toast_frame
        split: fetch_outcome.splits option.splits sum.splits)
qed

lemma publish_resume_frame:
  "session (fst (handlePublish_resume outcome s)) = session s"
  "launcher (fst (handlePublish_resume outcome s)) = launcher s"
proof -
  have "session (fst (handlePublish_resume outcome s)) = session (state_of (handlePublish_try outcome s))
     \<and> launcher (fst (handlePublish_resume outcome s)) = launcher (state_of (handlePublish_try outcome s))"
    by (simp add: handlePublish_resume_def split: completion.splits)
  then show "session (fst (handlePublish_resume outcome s)) = session s"
    "launcher (fst (handlePublish_resume outcome s)) = launcher s"
    by (simp_all add: publish_try_frame)
qed

lemma publish_begin_frame:
  "session (fst (handlePublish_begin a s)) = session s"
  "launcher (fst (handlePublish_begin a s)) = launcher s"
  by (simp_all add: handlePublish_begin_def session_def launcher_def reconnects_def)

lemma onmessage_frame:
  "session (state_of (ws_onmessage parsed s)) = session s"
  "launcher (state_of (ws_onmessage parsed s)) = launcher s"
  by (simp_all add: ws_onmessage_def appendLog_frame updateProgress_frame
      split: option.splits sum.splits)

lemma ws_readyState_cong:
  "ws s' = ws s \<Longrightarrow> socks s' = socks s \<Longrightarrow> ws_readyState s' = ws_readyState s"
  by (auto simp: ws_readyState_def split: option.splits)

lemma sent_session: "session s' = session s \<Longrightarrow> sent s' = sent s"
  by (simp add: session_def)

section \<open>Session controller: reconnect\<close>

lemma filter_update_keep:
  "i < length xs \<Longrightarrow> P (xs ! i) = P v \<Longrightarrow> length (filter P (xs[i := v])) = length (filter P xs)"
proof (induction xs arbitrary: i)
  case Nil
  then show ?case by simp
next
  case (Cons x xs)
  then show ?case by (cases i) auto
qed

lemma filter_update_drop:
  "i < length xs \<Longrightarrow> P (xs ! i) \<Longrightarrow> \<not> P v \<Longrightarrow>
     Suc (length (filter P (xs[i := v]))) = length (filter P xs)"
proof (induction xs arbitrary: i)
  case Nil
  then show ?case by simp
next
  case (Cons x xs)
  then show ?case by (cases i) auto
qed

lemma filter_remove_nth:
  "k < length xs \<Longrightarrow>
     length (filter P (take k xs @ drop (Suc k) xs)) + (if P (xs ! k) then 1 else 0)
       = length (filter P xs)"
proof (induction xs arbitrary: k)
  case Nil
  then show ?case by simp
next
  case (Cons x xs)
  then show ?case by (cases k) auto
qed

lemma balanced_session: "session s' = session s \<Longrightarrow> balanced s' = balanced s"
  by (simp add: session_def balanced_def live_socks_def)

lemma balanced_connect:
  "loaded s \<Longrightarrow> balanced (connectWebSocket s)"
  by (simp add: loaded_def balanced_def connectWebSocket_def setInterval_def reconnects_def live_socks_def)

lemma balanced_close:
  assumes "balanced s" "i < length (socks s)" "socks s ! i \<noteq> CLOSED"
  shows "reconnects s = []" and "reconnects (sock_close i s) = [(now s + 3000, ConnectWebSocket)]"
    and "live_socks (sock_close i s) = []"
proof -
  have live: "Suc (length (live_socks (sock_close i s))) = length (live_socks s)"
    using assms(2,3)
    by (simp add: live_socks_def sock_close_def ws_onclose_def setTimeout_def filter_update_drop)
  from assms(1) have sum: "length (reconnects s) + length (live_socks s) = 1"
    by (simp add: balanced_def)
  from live sum have "length (reconnects s) = 0" and "length (live_socks (sock_close i s)) = 0"
    by arith+
  then show r: "reconnects s = []" and "live_socks (sock_close i s) = []"
    by simp_all
  have "reconnects (sock_close i s) = reconnects s @ [(now s + 3000, ConnectWebSocket)]"
    by (simp add: reconnects_def sock_close_def ws_onclose_def setTimeout_def)
  with r show "reconnects (sock_close i s) = [(now s + 3000, ConnectWebSocket)]" by simp
qed

lemma run_callback_counts:
  "length (reconnects (run_callback cb s)) = length (reconnects s)"
  "length (live_socks (run_callback cb s)) =
     length (live_socks s) + (if cb = ConnectWebSocket then 1 else 0)"
  by (cases cb; simp add: connectWebSocket_def setInterval_def heartbeat_def hideToast_def
        reconnects_def live_socks_def split: option.splits)+

lemma balanced_fire:
  assumes "balanced s" "k < length (timeouts s)"
  shows "balanced (fire_timeout k s)"
proof -
  let ?s = "s\<lparr>timeouts := take k (timeouts s) @ drop (Suc k) (timeouts s)\<rparr>"
  have rm: "length (reconnects ?s) + (if snd (timeouts s ! k) = ConnectWebSocket then 1 else 0)
              = length (reconnects s)"
    using filter_remove_nth [OF assms(2), of "\<lambda>t. snd t = ConnectWebSocket"]
    by (simp add: reconnects_def)
  have socks: "length (live_socks ?s) = length (live_socks s)" by (simp add: live_socks_def)
  have f: "fire_timeout k s = run_callback (snd (timeouts s ! k)) ?s"
    by (simp add: fire_timeout_def)
  from assms(1) have sum: "length (reconnects s) + length (live_socks s) = 1"
    by (simp add: balanced_def)
  have "length (reconnects (fire_timeout k s)) + length (live_socks (fire_timeout k s)) = 1"
    unfolding f run_callback_counts using rm socks sum by (simp split: if_splits)
  then show ?thesis by (simp add: balanced_def)
qed

lemma intervals_step:
  "step s s' \<Longrightarrow> set (intervals s) \<subseteq> {(30000, Heartbeat)} \<Longrightarrow>
     set (intervals s') \<subseteq> {(30000, Heartbeat)}"
proof (induction rule: step.induct)
  case (timeout k s)
  then show ?case
    by (cases "snd (timeouts s ! k)")
       (auto simp: fire_timeout_def connectWebSocket_def setInterval_def heartbeat_def hideToast_def
          split: option.splits if_splits)
next
  case (interval p cb s)
  then show ?case
    by (cases cb)
       (auto simp: connectWebSocket_def setInterval_def heartbeat_def hideToast_def
          split: option.splits if_splits)
next
  case (manual_begin s)
  then show ?case using session_manual_begin [of s] by (simp add: session_def)
next
  case (manual_resume s outcome)
  then show ?case using session_manual_resume [of outcome s] by (simp add: session_def)
next
  case (auto_begin s answer)
  then show ?case using session_auto_begin [of answer s] by (simp add: session_def)
next
  case (auto_resume s outcome)
  then show ?case using session_auto_resume [of outcome s] by (simp add: session_def)
next
  case (publish_begin s answer)
  then show ?case using publish_begin_frame(1) [of answer s] by (simp add: session_def)
next
  case (publish_resume s outcome)
  then show ?case using publish_resume_frame(1) [of outcome s] by (simp add: session_def)
next
  case (message i s parsed)
  then show ?case using onmessage_frame(1) [of parsed s] by (simp add: session_def)
next
  case (toast s m)
  then show ?case using session_helpers(1) [of m s] by (simp add: session_def)
qed (simp_all add: sock_open_def ws_onopen_def ws_onerror_def sock_close_def ws_onclose_def setTimeout_def)

lemma balanced_step:
  assumes "step s s'" "balanced s" "set (intervals s) \<subseteq> {(30000, Heartbeat)}"
  shows "balanced s'"
  using assms
proof (induction rule: step.induct)
  case (tick s d)
  then show ?case by (simp add: balanced_def reconnects_def live_socks_def)
next
  case (opened i s)
  then show ?case
    by (simp add: balanced_def reconnects_def live_socks_def sock_open_def ws_onopen_def
        filter_update_keep)
next
  case (failed i s)
  then show ?case by (simp add: balanced_def reconnects_def live_socks_def ws_onerror_def)
next
  case (closing i s)
  then show ?case
    by (simp add: balanced_def reconnects_def live_socks_def filter_update_keep)
next
  case (closed i s)
  then show ?case using balanced_close [of s i] by (simp add: balanced_def)
next
  case (timeout k s)
  then show ?case by (simp add: balanced_fire)
next
  case (interval p cb s)
  then have "cb = Heartbeat" by auto
  with interval show ?case
    by (simp add: balanced_def heartbeat_def reconnects_def live_socks_def split: option.splits)
next
  case (typing s u)
  then show ?case by (simp add: balanced_def reconnects_def live_socks_def)
next
  case (message i s parsed)
  then show ?case using balanced_session [OF onmessage_frame(1)] by simp
next
  case (toast s m)
  then show ?case using balanced_session [OF session_helpers(1)] by simp
next
  case (manual_begin s)
  then show ?case using balanced_session [OF session_manual_begin] by simp
next
  case (manual_resume s outcome)
  then show ?case using balanced_session [OF session_manual_resume] by simp
next
  case (auto_begin s answer)
  then show ?case using balanced_session [OF session_auto_begin] by simp
next
  case (auto_resume s outcome)
  then show ?case using balanced_session [OF session_auto_resume] by simp
next
  case (publish_begin s answer)
  then show ?case using balanced_session [OF publish_begin_frame(1)] by simp
next
  case (publish_resume s outcome)
  then show ?case using balanced_session [OF publish_resume_frame(1)] by simp
qed

lemma reachable_inv:
  "reachable s \<Longrightarrow> balanced s \<and> set (intervals s) \<subseteq> {(30000, Heartbeat)}"
proof (induction rule: reachable.induct)
  case (start s)
  then show ?case
    by (simp add: balanced_connect) (simp add: loaded_def connectWebSocket_def setInterval_def)
next
  case (later s s')
  then show ?case by (simp add: balanced_step intervals_step)
qed

lemma fire_reconnect:
  assumes "balanced s" "k < length (timeouts s)" "snd (timeouts s ! k) = ConnectWebSocket"
  shows "reconnects (fire_timeout k s) = []" "ws_readyState (fire_timeout k s) = Some CONNECTING"
proof -
  have b: "balanced (fire_timeout k s)" using assms(1,2) by (rule balanced_fire)
  have "live_socks (fire_timeout k s) \<noteq> []"
    using assms(3) by (simp add: fire_timeout_def connectWebSocket_def setInterval_def live_socks_def)
  then have "length (live_socks (fire_timeout k s)) \<noteq> 0" by simp
  with b have "length (reconnects (fire_timeout k s)) = 0" unfolding balanced_def by arith
  then show "reconnects (fire_timeout k s) = []" by simp
  show "ws_readyState (fire_timeout k s) = Some CONNECTING"
    using assms(3)
    by (simp add: fire_timeout_def connectWebSocket_def setInterval_def ws_readyState_def)
qed

lemma retry_run_shape:
  "reachable (retry_run n) \<and> socks (retry_run n) = replicate n CLOSED @ [CONNECTING]
     \<and> timeouts (retry_run n) = [] \<and> ws (retry_run n) = Some n"
proof (induction n)
  case 0
  show ?case
    using reachable.start [OF loaded_page0]
    by (simp add: connectWebSocket_def setInterval_def page0_def)
next
  case (Suc n)
  let ?r = "retry_run n"
  let ?c = "sock_close n ?r"
  let ?t = "?c\<lparr>now := now ?c + 3000\<rparr>"
  from Suc have r: "reachable ?r" and sk: "socks ?r = replicate n CLOSED @ [CONNECTING]"
    and tm: "timeouts ?r = []" by simp_all
  have n: "n < length (socks ?r)" "socks ?r ! n \<noteq> CLOSED"
    by (simp_all add: sk nth_append)
  have c: "reachable ?c" using r step.closed [OF n] by (rule reachable.later)
  have t: "reachable ?t" using c step.tick [of ?c 3000] by (rule reachable.later)
  have upd: "(replicate n CLOSED @ [CONNECTING])[n := CLOSED] = replicate (Suc n) CLOSED"
    using list_update_length [of "replicate n CLOSED" CONNECTING "[]" CLOSED]
    by (simp add: replicate_append_same)
  have tmc: "timeouts ?c = [(now ?r + 3000, ConnectWebSocket)]" and nowc: "now ?c = now ?r"
    and skc: "socks ?c = replicate (Suc n) CLOSED"
    using upd by (simp_all add: sock_close_def ws_onclose_def setTimeout_def tm sk)
  have k: "0 < length (timeouts ?t)" "fst (timeouts ?t ! 0) \<le> now ?t"
    by (simp_all add: tmc nowc)
  have f: "reachable (fire_timeout 0 ?t)" using t step.timeout [OF k] by (rule reachable.later)
  have "socks (fire_timeout 0 ?t) = replicate (Suc n) CLOSED @ [CONNECTING]"
    "timeouts (fire_timeout 0 ?t) = []" "ws (fire_timeout 0 ?t) = Some (Suc n)"
    by (simp_all add: fire_timeout_def tmc skc connectWebSocket_def setInterval_def)
  with f show ?case by (simp add: Let_def)
qed

text \<open>
  Claim C3. In every state the page can reach, at most one reconnect timer is pending. When
  a socket closes there was none pending, and afterwards there is exactly one, due exactly
  3000 ms after the close, whatever happened before. When a reconnect timer fires, none is
  pending and \<^verbatim>\<open>ws\<close> is a new connecting socket. There is no bound on the retries: for every
  \<open>n\<close> the page after \<open>n\<close> failed attempts is reachable, with socket \<open>n + 1\<close> connecting.
\<close>

theorem reconnect_once_after_fixed_delay:
  assumes "reachable s"
  shows "length (reconnects s) \<le> 1
    \<and> (\<forall>i. i < length (socks s) \<and> socks s ! i \<noteq> CLOSED \<longrightarrow>
          reconnects s = [] \<and> reconnects (sock_close i s) = [(now s + 3000, ConnectWebSocket)])
    \<and> (\<forall>k. k < length (timeouts s) \<and> snd (timeouts s ! k) = ConnectWebSocket \<longrightarrow>
          reconnects (fire_timeout k s) = [] \<and> ws_readyState (fire_timeout k s) = Some CONNECTING)
    \<and> reachable (retry_run n) \<and> length (socks (retry_run n)) = Suc n"
proof -
  from assms have b: "balanced s" by (simp add: reachable_inv)
  then have "length (reconnects s) \<le> 1" by (simp add: balanced_def)
  moreover have "reachable (retry_run n) \<and> length (socks (retry_run n)) = Suc n"
    using retry_run_shape [of n] by simp
  ultimately show ?thesis
    using balanced_close(1,2) [OF b] fire_reconnect [OF b] by blast
qed

theorem reconnect_once_after_fixed_delay_witness:
  "reachable (connectWebSocket page0)
   \<and> socks (connectWebSocket page0) ! 0 \<noteq> CLOSED
   \<and> reconnects (sock_close 0 (connectWebSocket page0)) = [(3000, ConnectWebSocket)]
   \<and> reachable (sock_close 0 (connectWebSocket page0))
   \<and> snd (timeouts (sock_close 0 (connectWebSocket page0)) ! 0) = ConnectWebSocket
   \<and> ws_readyState (fire_timeout 0 (sock_close 0 (connectWebSocket page0))) = Some CONNECTING
   \<and> length (socks (retry_run 5)) = 6"
proof -
  let ?s = "connectWebSocket page0"
  have r0: "reachable ?s" using loaded_page0 by (rule reachable.start)
  have s0: "socks ?s = [CONNECTING]" "timeouts ?s = []" "now ?s = 0"
    by (simp_all add: connectWebSocket_def setInterval_def page0_def)
  have live: "0 < length (socks ?s)" "socks ?s ! 0 \<noteq> CLOSED"
    by (simp_all add: s0)
  have r1: "reachable (sock_close 0 ?s)"
    using r0 step.closed [OF live] by (rule reachable.later)
  have t1: "timeouts (sock_close 0 ?s) = [(3000, ConnectWebSocket)]"
    by (simp add: sock_close_def ws_onclose_def setTimeout_def s0)
  show ?thesis
    using reconnect_once_after_fixed_delay [OF r0, of 5] reconnect_once_after_fixed_delay [OF r1, of 5]
      live r0 r1
    by (simp add: t1 s0)
qed

section \<open>Session controller: heartbeat\<close>

lemma heartbeat_sent:
  "sent (heartbeat s) \<noteq> sent s \<Longrightarrow> ws_readyState s = Some OPEN"
  by (simp add: heartbeat_def split: option.splits if_splits)

lemma run_callback_sent:
  "sent (run_callback cb s) \<noteq> sent s \<Longrightarrow> ws_readyState s = Some OPEN"
  by (cases cb) (simp_all add: heartbeat_sent connectWebSocket_def setInterval_def hideToast_def)

lemma step_sent:
  assumes "step s s'" "sent s' \<noteq> sent s"
  shows "ws_readyState s = Some OPEN"
  using assms
proof (induction rule: step.induct)
  case (timeout k s)
  let ?s = "s\<lparr>timeouts := take k (timeouts s) @ drop (Suc k) (timeouts s)\<rparr>"
  from timeout have "sent (run_callback (snd (timeouts s ! k)) ?s) \<noteq> sent ?s"
    by (simp add: fire_timeout_def)
  then have "ws_readyState ?s = Some OPEN" by (rule run_callback_sent)
  moreover have "ws_readyState ?s = ws_readyState s" by (rule ws_readyState_cong) simp_all
  ultimately show ?case by simp
next
  case (interval p cb s)
  then show ?case by (simp add: run_callback_sent)
next
  case (message i s parsed)
  then show ?case using sent_session [OF onmessage_frame(1)] by simp
next
  case (toast s m)
  then show ?case using sent_session [OF session_helpers(1)] by simp
next
  case (manual_begin s)
  then show ?case using sent_session [OF session_manual_begin] by simp
next
  case (manual_resume s outcome)
  then show ?case using sent_session [OF session_manual_resume] by simp
next
  case (auto_begin s answer)
  then show ?case using sent_session [OF session_auto_begin] by simp
next
  case (auto_resume s outcome)
  then show ?case using sent_session [OF session_auto_resume] by simp
next
  case (publish_begin s answer)
  then show ?case using sent_session [OF publish_begin_frame(1)] by simp
next
  case (publish_resume s outcome)
  then show ?case using sent_session [OF publish_resume_frame(1)] by simp
qed (simp_all add: sock_open_def ws_onopen_def ws_onerror_def sock_close_def ws_onclose_def
      setTimeout_def)

lemma connected_fields:
  "reachable connected" "ws connected = Some 0" "socks connected = [OPEN]" "sent connected = []"
  "intervals connected = [(30000, Heartbeat)]"
proof -
  let ?s = "connectWebSocket page0"
  have r0: "reachable ?s" using loaded_page0 by (rule reachable.start)
  have s0: "socks ?s = [CONNECTING]"
    by (simp add: connectWebSocket_def setInterval_def page0_def)
  have "step ?s (sock_open 0 ?s)" by (rule step.opened) (simp_all add: s0)
  with r0 show "reachable connected" unfolding connected_def by (rule reachable.later)
  show "ws connected = Some 0" "socks connected = [OPEN]" "sent connected = []"
    "intervals connected = [(30000, Heartbeat)]"
    by (simp_all add: connected_def sock_open_def ws_onopen_def connectWebSocket_def
        setInterval_def page0_def)
qed

text \<open>
  \<^verbatim>\<open>connectWebSocket\<close> never clears the interval of the connection before: a reachable state
  holds as many heartbeat intervals as sockets were created.
\<close>

lemma intervals_socks_session:
  "session s' = session s \<Longrightarrow> length (intervals s') = length (socks s') \<longleftrightarrow> length (intervals s) = length (socks s)"
  by (simp add: session_def)

lemma run_callback_lengths:
  "length (intervals (run_callback cb s)) = length (intervals s) + (if cb = ConnectWebSocket then 1 else 0)"
  "length (socks (run_callback cb s)) = length (socks s) + (if cb = ConnectWebSocket then 1 else 0)"
  by (cases cb; simp add: connectWebSocket_def setInterval_def heartbeat_def hideToast_def
        split: option.splits)+

lemma intervals_count_step:
  assumes "step s s'" "length (intervals s) = length (socks s)"
  shows "length (intervals s') = length (socks s')"
  using assms
proof (induction rule: step.induct)
  case (timeout k s)
  then show ?case by (simp add: fire_timeout_def run_callback_lengths)
next
  case (interval p cb s)
  then show ?case by (simp add: run_callback_lengths)
next
  case (message i s parsed)
  then show ?case using intervals_socks_session [OF onmessage_frame(1)] by simp
next
  case (toast s m)
  then show ?case using intervals_socks_session [OF session_helpers(1)] by simp
next
  case (manual_begin s)
  then show ?case using intervals_socks_session [OF session_manual_begin] by simp
next
  case (manual_resume s outcome)
  then show ?case using intervals_socks_session [OF session_manual_resume] by simp
next
  case (auto_begin s answer)
  then show ?case using intervals_socks_session [OF session_auto_begin] by simp
next
  case (auto_resume s outcome)
  then show ?case using intervals_socks_session [OF session_auto_resume] by simp
next
  case (publish_begin s answer)
  then show ?case using intervals_socks_session [OF publish_begin_frame(1)] by simp
next
  case (publish_resume s outcome)
  then show ?case using intervals_socks_session [OF publish_resume_frame(1)] by simp
qed (simp_all add: sock_open_def ws_onopen_def ws_onerror_def sock_close_def ws_onclose_def
      setTimeout_def)

lemma heartbeat_timers_accumulate:
  "reachable s \<Longrightarrow> length (intervals s) = length (socks s)"
proof (induction rule: reachable.induct)
  case (start s)
  then show ?case by (simp add: loaded_def connectWebSocket_def setInterval_def)
next
  case (later s s')
  then show ?case by (simp add: intervals_count_step)
qed

text \<open>
  Claim C4. When the heartbeat callback runs while the socket in \<^verbatim>\<open>ws\<close> is not open, so also
  right after that socket closed, it does nothing; while it is open, it sends the one frame
  \<^verbatim>\<open>ping\<close> on it. \<^verbatim>\<open>connectWebSocket\<close> registers the callback with the period 30000 ms, and no
  other interval exists in a reachable state. No event of the page sends a frame unless the
  socket in \<^verbatim>\<open>ws\<close> is open.
\<close>

theorem heartbeat_only_while_open:
  "(ws_readyState s \<noteq> Some OPEN \<longrightarrow> heartbeat s = s)
   \<and> (ws_readyState s = Some OPEN \<longrightarrow>
        (\<exists>i. ws s = Some i \<and> heartbeat s = s\<lparr>sent := sent s @ [(i, ''ping'')]\<rparr>))
   \<and> (ws s = Some i \<and> i < length (socks s) \<longrightarrow> heartbeat (sock_close i s) = sock_close i s)
   \<and> intervals (connectWebSocket s) = intervals s @ [(30000, Heartbeat)]
   \<and> (reachable s \<longrightarrow> set (intervals s) \<subseteq> {(30000, Heartbeat)})
   \<and> (step s s' \<and> sent s' \<noteq> sent s \<longrightarrow> ws_readyState s = Some OPEN)"
proof -
  have a: "ws_readyState s \<noteq> Some OPEN \<longrightarrow> heartbeat s = s"
    by (simp add: heartbeat_def split: option.splits)
  have b: "ws_readyState s = Some OPEN \<longrightarrow>
        (\<exists>i. ws s = Some i \<and> heartbeat s = s\<lparr>sent := sent s @ [(i, ''ping'')]\<rparr>)"
    by (simp add: heartbeat_def ws_readyState_def split: option.splits)
  have c: "ws s = Some i \<and> i < length (socks s) \<longrightarrow> heartbeat (sock_close i s) = sock_close i s"
    by (simp add: heartbeat_def ws_readyState_def sock_close_def ws_onclose_def setTimeout_def)
  have d: "intervals (connectWebSocket s) = intervals s @ [(30000, Heartbeat)]"
    by (simp add: connectWebSocket_def setInterval_def)
  show ?thesis using a b c d reachable_inv [of s] step_sent [of s s'] by blast
qed

theorem heartbeat_only_while_open_witness:
  "ws_readyState (sock_close 0 connected) \<noteq> Some OPEN
   \<and> sent (heartbeat (sock_close 0 connected)) = []
   \<and> ws_readyState connected = Some OPEN
   \<and> sent (heartbeat connected) = [(0, ''ping'')]
   \<and> reachable connected \<and> set (intervals connected) \<subseteq> {(30000, Heartbeat)}
   \<and> step connected (heartbeat connected) \<and> sent (heartbeat connected) \<noteq> sent connected"
proof -
  have o: "ws_readyState connected = Some OPEN"
    by (simp add: ws_readyState_def connected_fields)
  have c: "ws_readyState (sock_close 0 connected) = Some CLOSED"
    by (simp add: ws_readyState_def sock_close_def ws_onclose_def setTimeout_def connected_fields)
  have sc: "sent (sock_close 0 connected) = []"
    by (simp add: sock_close_def ws_onclose_def setTimeout_def connected_fields)
  have "step connected (run_callback Heartbeat connected)"
    by (rule step.interval [of 30000]) (simp add: connected_fields)
  then have st: "step connected (heartbeat connected)" by simp
  show ?thesis
    using heartbeat_only_while_open [of connected 0 "heartbeat connected"]
      heartbeat_only_while_open [of "sock_close 0 connected" 0 "heartbeat connected"]
      o c sc st
    by (auto simp: connected_fields)
qed

section \<open>Job launcher: confirmation and validation\<close>

text \<open>
  Claim C5. \<^verbatim>\<open>handleAuto\<close> and \<^verbatim>\<open>handlePublish\<close> issue their request only after \<^verbatim>\<open>confirm\<close>
  was shown and answered yes: a request among the calls of the first part means the answer
  was yes and the calls are the dialog followed by that request. When the answer is no, the
  state is unchanged and the dialog is the only call. The second parts issue no request.
  \<^verbatim>\<open>triggerAction\<close> shows no dialog, and with settings and link present its only call is the
  request.
\<close>

theorem confirmation_gate:
  "(\<not> answer \<and> trim (urlInput s) \<noteq> [] \<longrightarrow> handleAuto_begin answer s = (s, [Confirm CONFIRM_AUTO]))
   \<and> (\<forall>r. Fetch r \<in> set (snd (handleAuto_begin answer s)) \<longrightarrow>
          answer \<and> snd (handleAuto_begin answer s) = [Confirm CONFIRM_AUTO, Fetch r])
   \<and> (\<not> answer \<longrightarrow> handlePublish_begin answer s = (s, [Confirm CONFIRM_PUBLISH]))
   \<and> (\<forall>r. Fetch r \<in> set (snd (handlePublish_begin answer s)) \<longrightarrow>
          answer \<and> snd (handlePublish_begin answer s) = [Confirm CONFIRM_PUBLISH, Fetch r])
   \<and> (\<forall>r. Fetch r \<notin> set (snd (handleAuto_resume outcome s))
          \<and> Fetch r \<notin> set (snd (handlePublish_resume outcome s)))
   \<and> (\<forall>m. Confirm m \<notin> set (snd (triggerAction_begin c)))
   \<and> (repo (getSettings c) \<noteq> [] \<and> pat (getSettings c) \<noteq> [] \<and> trim (c_urlInput c) \<noteq> [] \<longrightarrow>
        (\<exists>r. snd (triggerAction_begin c) = [Fetch r]))"
proof -
  have a: "\<forall>r. Fetch r \<notin> set (snd (handleAuto_resume outcome s))"
    by (simp add: handleAuto_resume_def split: completion.splits)
  have b: "\<forall>r. Fetch r \<notin> set (snd (handlePublish_resume outcome s))"
    by (simp add: handlePublish_resume_def split: completion.splits)
  have c: "\<forall>m. Confirm m \<notin> set (snd (triggerAction_begin c))"
    by (simp add: triggerAction_begin_def Let_def)
  show ?thesis using a b c
    by (simp add: handleAuto_begin_def handlePublish_begin_def triggerAction_begin_def Let_def
        getConfig_def appendLog_Str)
qed

theorem confirmation_gate_witness:
  "trim (urlInput page_url) \<noteq> []
   \<and> handleAuto_begin False page_url = (page_url, [Confirm CONFIRM_AUTO])
   \<and> snd (handleAuto_begin True page_url) =
       [Confirm CONFIRM_AUTO,
        Fetch (post_json ''/api/auto-publish''
          (Obj [(''url'', Str ''https://example.com/a''), (''model'', Str []),
                (''template'', Str []), (''prompt_style'', Str [])]))]
   \<and> handlePublish_begin False page_url = (page_url, [Confirm CONFIRM_PUBLISH])
   \<and> snd (handlePublish_begin True page_url) =
       [Confirm CONFIRM_PUBLISH, Fetch (post_json ''/api/publish'' (Obj [(''auto_publish'', Bool True)]))]
   \<and> repo (getSettings cloud_ready) \<noteq> [] \<and> pat (getSettings cloud_ready) \<noteq> []
   \<and> trim (c_urlInput cloud_ready) \<noteq> []
   \<and> (\<exists>r. snd (triggerAction_begin cloud_ready) = [Fetch r])"
proof -
  have u: "trim (urlInput page_url) = ''https://example.com/a''"
    by (simp add: page_url_def trim_def is_space_def)
  then have nz: "trim (urlInput page_url) \<noteq> []" by simp
  have f: "modelSelect page_url = []" "templateSelect page_url = []" "promptSelect page_url = []"
    by (simp_all add: page_url_def page0_def)
  have a: "snd (handleAuto_begin True page_url) =
       [Confirm CONFIRM_AUTO,
        Fetch (post_json ''/api/auto-publish''
          (Obj [(''url'', Str ''https://example.com/a''), (''model'', Str []),
                (''template'', Str []), (''prompt_style'', Str [])]))]"
    by (simp add: handleAuto_begin_def Let_def getConfig_def config_json_def u f appendLog_Str)
  have p: "snd (handlePublish_begin True page_url) =
       [Confirm CONFIRM_PUBLISH, Fetch (post_json ''/api/publish'' (Obj [(''auto_publish'', Bool True)]))]"
    by (simp add: handlePublish_begin_def)
  have g: "repo (getSettings cloud_ready) \<noteq> []" "pat (getSettings cloud_ready) \<noteq> []"
    "trim (c_urlInput cloud_ready) \<noteq> []"
    by (simp_all add: cloud_ready_def cloud0_def getSettings_def getItem_or_empty_def trim_def is_space_def)
  note gate = confirmation_gate [of False page_url NetworkError cloud_ready]
  from gate nz have t1: "handleAuto_begin False page_url = (page_url, [Confirm CONFIRM_AUTO])"
    by blast
  from gate have t2: "handlePublish_begin False page_url = (page_url, [Confirm CONFIRM_PUBLISH])"
    by blast
  from gate g have t3: "\<exists>r. snd (triggerAction_begin cloud_ready) = [Fetch r]"
    by blast
  show ?thesis
    by (intro conjI) (fact nz t1 a t2 p g t3)+
qed

text \<open>
  Claim C6, as stated: every submission with an empty link, and a dispatch with a setting
  missing, fails before any network call and changes no state. \<^verbatim>\<open>handlePublish\<close> does not read
  the link: with the link field empty and the dialog confirmed it disables the publish button
  and issues its request. And \<^verbatim>\<open>triggerAction\<close> with no repository stored does change the
  state beyond the notice: it opens the settings panel.
\<close>

theorem publish_ignores_link_counterexample:
  "trim (urlInput page0) = []
   \<and> snd (handlePublish_begin True page0) =
       [Confirm CONFIRM_PUBLISH, Fetch (post_json ''/api/publish'' (Obj [(''auto_publish'', Bool True)]))]
   \<and> btnPublish (fst (handlePublish_begin True page0)) =
       \<lparr>disabled = True, innerHTML = LABEL_PUBLISHING\<rparr>
   \<and> btnPublish page0 = \<lparr>disabled = False, innerHTML = LABEL_PUBLISH\<rparr>
   \<and> repo (getSettings cloud0) = []
   \<and> settingsOpen cloud0 = False
   \<and> settingsOpen (fst (triggerAction_begin cloud0)) = True"
  by (simp add: handlePublish_begin_def page0_fields trim_def cloud0_def getSettings_def
      getItem_or_empty_def triggerAction_begin_def showSettings_def cloud_showToast_def)

text \<open>
  Claim C6, amended. With a link that is empty after trimming, \<^verbatim>\<open>handleManual\<close> and
  \<^verbatim>\<open>handleAuto\<close> show the toast and do nothing else: no call to the outside, the state changed
  only in the toast and its timer, the flag as it was. \<^verbatim>\<open>triggerAction\<close> with the repository or
  the token missing shows its toast, opens the settings panel, and makes no call; with both
  present and an empty link it shows its toast and makes no call. \<^verbatim>\<open>handlePublish\<close> reads no
  link: once the dialog is confirmed it disables the publish button and issues its request,
  whatever the link field holds.
\<close>

theorem empty_url_fails_fast:
  "(trim (urlInput s) = [] \<longrightarrow>
      handleManual_begin s =
        (s\<lparr>toastText := lit ''[warning] enter the article link first'', toastShow := True,
           timeouts := timeouts s @ [(now s + 3000, HideToast)]\<rparr>, [])
      \<and> handleAuto_begin answer s =
        (s\<lparr>toastText := lit ''[warning] enter the article link first'', toastShow := True,
           timeouts := timeouts s @ [(now s + 3000, HideToast)]\<rparr>, [])
      \<and> isProcessing (fst (handleManual_begin s)) = isProcessing s
      \<and> isProcessing (fst (handleAuto_begin answer s)) = isProcessing s)
   \<and> (repo (getSettings c) = [] \<or> pat (getSettings c) = [] \<longrightarrow>
        triggerAction_begin c =
          (c\<lparr>c_toastText := lit ''[warning] configure Repo and PAT first'', c_toastShow := True,
             c_timeouts := c_timeouts c @ [(c_now c + 3000, HideCloudToast)],
             settingsOpen := True, arrow := ''[up]''\<rparr>, []))
   \<and> (repo (getSettings c) \<noteq> [] \<and> pat (getSettings c) \<noteq> [] \<and> trim (c_urlInput c) = [] \<longrightarrow>
        triggerAction_begin c =
          (c\<lparr>c_toastText := lit ''[warning] enter the article link'', c_toastShow := True,
             c_timeouts := c_timeouts c @ [(c_now c + 3000, HideCloudToast)]\<rparr>, []))
   \<and> handlePublish_begin True s =
        (s\<lparr>btnPublish := \<lparr>disabled = True, innerHTML = LABEL_PUBLISHING\<rparr>\<rparr>,
         [Confirm CONFIRM_PUBLISH,
          Fetch (post_json ''/api/publish'' (Obj [(''auto_publish'', Bool True)]))])"
  by (simp add: handleManual_begin_def handleAuto_begin_def triggerAction_begin_def Let_def
      getConfig_def showToast_eq cloud_showToast_eq showSettings_def handlePublish_begin_def)

theorem empty_url_fails_fast_witness:
  "trim (urlInput page0) = []
   \<and> snd (handleManual_begin page0) = [] \<and> snd (handleAuto_begin True page0) = []
   \<and> \<not> isProcessing (fst (handleManual_begin page0))
   \<and> toastShow (fst (handleManual_begin page0))
   \<and> repo (getSettings cloud0) = []
   \<and> snd (triggerAction_begin cloud0) = [] \<and> settingsOpen (fst (triggerAction_begin cloud0))
   \<and> repo (getSettings cloud_blank) \<noteq> [] \<and> pat (getSettings cloud_blank) \<noteq> []
   \<and> trim (c_urlInput cloud_blank) = []
   \<and> snd (triggerAction_begin cloud_blank) = []
   \<and> btnTrigger (fst (triggerAction_begin cloud_blank)) = btnTrigger cloud_blank"
proof -
  have u: "trim (urlInput page0) = []" by (simp add: page0_fields trim_def)
  have r: "repo (getSettings cloud0) = []"
    by (simp add: cloud0_def getSettings_def getItem_or_empty_def)
  have g: "repo (getSettings cloud_blank) \<noteq> []" "pat (getSettings cloud_blank) \<noteq> []"
    "trim (c_urlInput cloud_blank) = []"
    by (simp_all add: cloud_blank_def cloud_ready_def cloud0_def getSettings_def getItem_or_empty_def
        trim_def is_space_def)
  note page = empty_url_fails_fast [of page0 True cloud0]
  note blank = empty_url_fails_fast [of page0 True cloud_blank]
  from page u have m: "snd (handleManual_begin page0) = []" "snd (handleAuto_begin True page0) = []"
    "toastShow (fst (handleManual_begin page0))"
    "isProcessing (fst (handleManual_begin page0)) = isProcessing page0"
    by simp_all
  then have np: "\<not> isProcessing (fst (handleManual_begin page0))" by (simp add: page0_fields)
  from page r have c: "snd (triggerAction_begin cloud0) = []" "settingsOpen (fst (triggerAction_begin cloud0))"
    by simp_all
  from blank g have b: "snd (triggerAction_begin cloud_blank) = []"
    "btnTrigger (fst (triggerAction_begin cloud_blank)) = btnTrigger cloud_blank"
    by simp_all
  show ?thesis
    by (intro conjI) (fact u m np r c g b)+
qed

section \<open>Service workers: the cache policy\<close>

lemma starts_with_iff: "starts_with s sub \<longleftrightarrow> (\<exists>b. s = sub @ b)"
  by (induction s sub rule: starts_with.induct) auto

lemma str_includes_iff: "str_includes s sub \<longleftrightarrow> (\<exists>a b. s = a @ sub @ b)"
proof (induction s)
  case Nil
  then show ?case by simp
next
  case (Cons c cs)
  show ?case
  proof
    assume "str_includes (c # cs) sub"
    then consider "starts_with (c # cs) sub" | "str_includes cs sub" by auto
    then show "\<exists>a b. c # cs = a @ sub @ b"
    proof cases
      case 1
      then obtain b where "c # cs = sub @ b" by (auto simp: starts_with_iff)
      then have "c # cs = [] @ sub @ b" by simp
      then show ?thesis by blast
    next
      case 2
      with Cons obtain a b where "cs = a @ sub @ b" by blast
      then have "c # cs = (c # a) @ sub @ b" by simp
      then show ?thesis by blast
    qed
  next
    assume "\<exists>a b. c # cs = a @ sub @ b"
    then obtain a b where ab: "c # cs = a @ sub @ b" by blast
    show "str_includes (c # cs) sub"
    proof (cases a)
      case Nil
      with ab have "starts_with (c # cs) sub" by (auto simp: starts_with_iff)
      then show ?thesis by simp
    next
      case (Cons d ds)
      with ab have "cs = ds @ sub @ b" by simp
      with Cons.IH have "str_includes cs sub" by blast
      then show ?thesis by simp
    qed
  qed
qed

lemma ws_logs_includes_ws: "str_includes (a @ ''/ws/logs'' @ b) ''/ws/''"
proof -
  have "a @ ''/ws/logs'' @ b = a @ ''/ws/'' @ (''logs'' @ b)" by simp
  then show ?thesis unfolding str_includes_iff by blast
qed

lemma caches_match_found:
  "(name, c) \<in> set cs \<Longrightarrow> map_of c u = Some r \<Longrightarrow> \<exists>r'. caches_match cs u = Some r'"
  by (induction cs) (auto split: option.splits)

lemma fetch_all_holds:
  "fetch_all net us = Some new \<Longrightarrow> u \<in> set us \<Longrightarrow> \<exists>r. map_of new u = Some r"
  by (induction us arbitrary: new) (auto split: option.splits)

lemma caches_open_has: "CACHE_NAME \<in> set (map fst (caches_open CACHE_NAME cs))"
  by (simp add: caches_open_def)

lemma sw_install_holds:
  assumes "sw_install urls net cs0 = (True, cs)" "u \<in> set urls"
  shows "\<exists>c r. (CACHE_NAME, c) \<in> set cs \<and> map_of c u = Some r"
proof -
  from assms(1) obtain new where new: "fetch_all net urls = Some new"
    and cs: "cs = map (\<lambda>(name, c). if name = CACHE_NAME then (name, cache_put_all new c) else (name, c))
               (caches_open CACHE_NAME cs0)"
    by (auto simp: sw_install_def Let_def split: option.splits)
  from caches_open_has [of cs0] obtain c0 where c0: "(CACHE_NAME, c0) \<in> set (caches_open CACHE_NAME cs0)"
    by auto
  then have "(CACHE_NAME, cache_put_all new c0) \<in> set cs"
    unfolding cs by force
  moreover from fetch_all_holds [OF new assms(2)] obtain r where "map_of new u = Some r" ..
  then have "map_of (cache_put_all new c0) u = Some r"
    by (simp add: cache_put_all_def)
  ultimately show ?thesis by blast
qed

lemma cache_first_installed:
  assumes "sw_install urls net0 cs0 = (True, cs)" "u \<in> set urls"
  shows "\<exists>r. cache_first u net cs = FromCache r"
proof -
  from sw_install_holds [OF assms] obtain c r where "(CACHE_NAME, c) \<in> set cs" "map_of c u = Some r"
    by blast
  then obtain r' where "caches_match cs u = Some r'" using caches_match_found by blast
  then show ?thesis by (simp add: cache_first_def)
qed

text \<open>
  Claim C2, as stated: a request whose URL contains \<^verbatim>\<open>/api/\<close> is never answered from the
  cache. The worker of the cloud console lets through only URLs that contain
  \<^verbatim>\<open>api.github.com\<close>: installed in a directory \<^verbatim>\<open>/api/\<close>, it answers the request for its own
  \<^verbatim>\<open>index.html\<close>, whose URL contains \<^verbatim>\<open>/api/\<close>, from the cache.
\<close>

theorem docs_worker_counterexample:
  "str_includes ''https://example.org/api/index.html'' ''/api/''
   \<and> fst (sw_fetch_docs ''https://example.org/api/index.html'' offline
            (snd (sw_install_docs ''https://example.org/api/'' online [])))
       = Responded (FromCache ''content of https://example.org/api/index.html'')"
  by (simp add: sw_fetch_docs_def cache_first_def sw_install_docs_def sw_install_def caches_open_def
      URLS_TO_CACHE_docs_def resolve_docs_def cache_put_all_def CACHE_NAME_def online_def)

text \<open>
  Claim C2, amended. The worker of the backend page does not answer a request whose URL
  contains \<^verbatim>\<open>/api/\<close> or \<^verbatim>\<open>/ws/\<close>, so none to \<^verbatim>\<open>/ws/logs\<close>; the worker of the cloud console does
  not answer a request whose URL contains \<^verbatim>\<open>api.github.com\<close>. After an install that succeeded,
  a request for a manifest entry that the guard lets pass is answered from the cache, whatever
  the network does. Neither fetch listener changes cache storage.
\<close>

theorem resource_cache_policy:
  "(str_includes u ''/api/'' \<or> str_includes u ''/ws/'' \<longrightarrow> fst (sw_fetch_api u net cs) = NotIntercepted)
   \<and> fst (sw_fetch_api (a @ ''/ws/logs'' @ b) net cs) = NotIntercepted
   \<and> (str_includes u ''api.github.com'' \<longrightarrow> fst (sw_fetch_docs u net cs) = NotIntercepted)
   \<and> (sw_install_api origin net0 cs0 = (True, cs) \<and> e \<in> set URLS_TO_CACHE_api
        \<and> \<not> str_includes (resolve_api origin e) ''/api/''
        \<and> \<not> str_includes (resolve_api origin e) ''/ws/'' \<longrightarrow>
        (\<exists>r. fst (sw_fetch_api (resolve_api origin e) net cs) = Responded (FromCache r)))
   \<and> (sw_install_docs dir net0 cs0 = (True, cs) \<and> e \<in> set URLS_TO_CACHE_docs
        \<and> \<not> str_includes (resolve_docs dir e) ''api.github.com'' \<longrightarrow>
        (\<exists>r. fst (sw_fetch_docs (resolve_docs dir e) net cs) = Responded (FromCache r)))
   \<and> snd (sw_fetch_api u net cs) = cs
   \<and> snd (sw_fetch_docs u net cs) = cs"
proof -
  have api: "\<exists>r. cache_first (resolve_api origin e) net cs = FromCache r"
    if "sw_install_api origin net0 cs0 = (True, cs)" "e \<in> set URLS_TO_CACHE_api"
    using that cache_first_installed [of "map (resolve_api origin) URLS_TO_CACHE_api" net0 cs0 cs
        "resolve_api origin e" net]
    by (simp add: sw_install_api_def)
  have docs: "\<exists>r. cache_first (resolve_docs dir e) net cs = FromCache r"
    if "sw_install_docs dir net0 cs0 = (True, cs)" "e \<in> set URLS_TO_CACHE_docs"
    using that cache_first_installed [of "map (resolve_docs dir) URLS_TO_CACHE_docs" net0 cs0 cs
        "resolve_docs dir e" net]
    by (simp add: sw_install_docs_def)
  show ?thesis
    using api docs ws_logs_includes_ws [of a b]
    by (auto simp: sw_fetch_api_def sw_fetch_docs_def)
qed

theorem resource_cache_policy_witness:
  "str_includes ''https://h/api/config'' ''/api/''
   \<and> fst (sw_fetch_api ''https://h/api/config'' offline api_installed) = NotIntercepted
   \<and> str_includes ''https://api.github.com/repos/me/repo/dispatches'' ''api.github.com''
   \<and> fst (sw_fetch_docs ''https://api.github.com/repos/me/repo/dispatches'' offline docs_installed)
       = NotIntercepted
   \<and> sw_install_api ''https://h'' online [] = (True, api_installed)
   \<and> ''/static/app.js'' \<in> set URLS_TO_CACHE_api
   \<and> \<not> str_includes (resolve_api ''https://h'' ''/static/app.js'') ''/api/''
   \<and> \<not> str_includes (resolve_api ''https://h'' ''/static/app.js'') ''/ws/''
   \<and> (\<exists>r. fst (sw_fetch_api (resolve_api ''https://h'' ''/static/app.js'') offline api_installed)
          = Responded (FromCache r))
   \<and> sw_install_docs ''https://u.github.io/xhs/'' online [] = (True, docs_installed)
   \<and> ''./app.js'' \<in> set URLS_TO_CACHE_docs
   \<and> \<not> str_includes (resolve_docs ''https://u.github.io/xhs/'' ''./app.js'') ''api.github.com''
   \<and> (\<exists>r. fst (sw_fetch_docs (resolve_docs ''https://u.github.io/xhs/'' ''./app.js'') offline
              docs_installed) = Responded (FromCache r))"
proof -
  have i1: "str_includes ''https://h/api/config'' ''/api/''" by simp
  have i2: "str_includes ''https://api.github.com/repos/me/repo/dispatches'' ''api.github.com''"
    by simp
  have a: "sw_install_api ''https://h'' online [] = (True, api_installed)"
    by (simp add: api_installed_def sw_install_api_def sw_install_def URLS_TO_CACHE_api_def Let_def online_def)
  have d: "sw_install_docs ''https://u.github.io/xhs/'' online [] = (True, docs_installed)"
    by (simp add: docs_installed_def sw_install_docs_def sw_install_def URLS_TO_CACHE_docs_def Let_def online_def)
  have m: "''/static/app.js'' \<in> set URLS_TO_CACHE_api" "''./app.js'' \<in> set URLS_TO_CACHE_docs"
    by (simp_all add: URLS_TO_CACHE_api_def URLS_TO_CACHE_docs_def)
  have n: "\<not> str_includes (resolve_api ''https://h'' ''/static/app.js'') ''/api/''"
    "\<not> str_includes (resolve_api ''https://h'' ''/static/app.js'') ''/ws/''"
    "\<not> str_includes (resolve_docs ''https://u.github.io/xhs/'' ''./app.js'') ''api.github.com''"
    by (simp_all add: resolve_api_def resolve_docs_def)
  note api1 = resource_cache_policy [of "''https://h/api/config''" offline api_installed "[]" "[]"
      "''https://h''" online "[]" "''/static/app.js''" "''https://u.github.io/xhs/''"]
  note docs1 = resource_cache_policy [of "''https://api.github.com/repos/me/repo/dispatches''"
      offline docs_installed "[]" "[]" "''https://h''" online "[]" "''./app.js''"
      "''https://u.github.io/xhs/''"]
  from api1 i1 have 1: "fst (sw_fetch_api ''https://h/api/config'' offline api_installed) = NotIntercepted"
    by blast
  from docs1 i2 have 2: "fst (sw_fetch_docs ''https://api.github.com/repos/me/repo/dispatches'' offline
      docs_installed) = NotIntercepted"
    by blast
  from api1 a m n have 3: "\<exists>r. fst (sw_fetch_api (resolve_api ''https://h'' ''/static/app.js'') offline
      api_installed) = Responded (FromCache r)"
    by blast
  from docs1 d m n have 4: "\<exists>r. fst (sw_fetch_docs (resolve_docs ''https://u.github.io/xhs/'' ''./app.js'')
      offline docs_installed) = Responded (FromCache r)"
    by blast
  show ?thesis
    by (intro conjI) (fact i1 i2 a d m n 1 2 3 4)+
qed

section \<open>Settings store\<close>

text \<open>
  Claim C9. \<^verbatim>\<open>saveSettings\<close> writes a field only when it is not empty after trimming and
  leaves every other stored key as it was; \<^verbatim>\<open>getSettings\<close> returns the stored values, the
  empty string for an absent key. So saving with one field empty keeps that field's stored
  value.
\<close>

theorem saveSettings_writes_nonempty_only:
  "(\<forall>k. k \<noteq> ''xhs_repo'' \<longrightarrow> k \<noteq> ''xhs_pat'' \<longrightarrow>
        localStorage (fst (saveSettings s)) k = localStorage s k)
   \<and> localStorage (fst (saveSettings s)) ''xhs_repo'' =
        (if trim (repoInput s) = [] then localStorage s ''xhs_repo'' else Some (trim (repoInput s)))
   \<and> localStorage (fst (saveSettings s)) ''xhs_pat'' =
        (if trim (patInput s) = [] then localStorage s ''xhs_pat'' else Some (trim (patInput s)))
   \<and> (trim (repoInput s) = [] \<longrightarrow> repo (getSettings (fst (saveSettings s))) = repo (getSettings s))
   \<and> (trim (patInput s) = [] \<longrightarrow> pat (getSettings (fst (saveSettings s))) = pat (getSettings s))
   \<and> repo (getSettings s) = (case localStorage s ''xhs_repo'' of None \<Rightarrow> [] | Some v \<Rightarrow> v)
   \<and> pat (getSettings s) = (case localStorage s ''xhs_pat'' of None \<Rightarrow> [] | Some v \<Rightarrow> v)"
  by (simp add: saveSettings_def loadRuns_begin_def Let_def setItem_def cloud_showToast_def
        getSettings_def getItem_or_empty_def)

theorem saveSettings_writes_nonempty_only_witness:
  "trim (patInput stored) = [] \<and> trim (repoInput stored) = ''me/repo''
   \<and> localStorage (fst (saveSettings stored)) ''theme'' = Some ''dark''
   \<and> localStorage (fst (saveSettings stored)) ''xhs_repo'' = Some ''me/repo''
   \<and> localStorage (fst (saveSettings stored)) ''xhs_pat'' = Some ''tok''
   \<and> pat (getSettings (fst (saveSettings stored))) = ''tok''
   \<and> repo (getSettings stored) = []"
  using saveSettings_writes_nonempty_only [of stored]
  by (simp add: stored_def cloud0_def trim_def is_space_def)

section \<open>Job launcher: the processing flag and the buttons\<close>











lemma env_step_step: "env_step s s' \<Longrightarrow> step s s'"
  by (induction rule: env_step.induct) (auto intro: step.intros)

lemma page_step_step: "page_step (s, p) (s', p') \<Longrightarrow> step s s'"
  by (induction "(s, p)" "(s', p')" rule: page_step.induct)
     (auto intro: step.intros env_step_step)

lemma page_reachable_reachable: "page_reachable x \<Longrightarrow> reachable (fst x)"
proof (induction rule: page_reachable.induct)
  case (start s)
  then show ?case by (simp add: ready_def reachable.start)
next
  case (later x y)
  then show ?case
    using page_step_step [of "fst x" "snd x" "fst y" "snd y"] by (auto intro: reachable.later)
qed


















section \<open>Preview and publish flow\<close>

lemma published_btn: "btnPublish published = \<lparr>disabled = True, innerHTML = LABEL_PUBLISHED\<rparr>"
  by (simp add: published_def publish_ok_def handlePublish_resume_def handlePublish_begin_def
      handlePublish_try_def resp_ok_def showToast_def setTimeout_def page0_def)

text \<open>
  A call of \<^verbatim>\<open>showPreview\<close> that returns has run the reset of the publish button and the
  activation of the panel, its last statements; a call that throws has reached neither.
\<close>

lemma showPreview_images_returned:
  "showPreview_images d s = Returned s' \<Longrightarrow>
     btnPublish s' = \<lparr>disabled = False, innerHTML = LABEL_PUBLISH\<rparr> \<and> previewPanel s'"
  by (auto simp: showPreview_images_def Let_def rearm_publish_def
      split: sum.splits completion.splits)

lemma showPreview_returned:
  "showPreview d s = Returned s' \<Longrightarrow>
     btnPublish s' = \<lparr>disabled = False, innerHTML = LABEL_PUBLISH\<rparr> \<and> previewPanel s'"
  by (auto simp: showPreview_def showPreview_subtitle_def dest: showPreview_images_returned
      split: sum.splits)

lemma append_images_thrown:
  "append_images i urls s = Thrown e s' \<Longrightarrow>
     btnPublish s' = btnPublish s \<and> previewPanel s' = previewPanel s"
  using append_images_frame [of i urls s] by simp

lemma showPreview_images_thrown:
  "showPreview_images d s = Thrown e s' \<Longrightarrow>
     btnPublish s' = btnPublish s \<and> previewPanel s' = previewPanel s"
  by (auto simp: showPreview_images_def Let_def dest!: append_images_thrown
      split: sum.splits completion.splits)

lemma showPreview_thrown:
  "showPreview d s = Thrown e s' \<Longrightarrow>
     btnPublish s' = btnPublish s \<and> previewPanel s' = previewPanel s"
  by (auto simp: showPreview_def showPreview_subtitle_def dest!: showPreview_images_thrown
      split: sum.splits)

text \<open>
  On a generate response \<^verbatim>\<open>showPreview\<close> runs to its end, and the state it leaves is the given
  one with the title, the cover-title line and the carousel replaced, the publish button
  reset and the panel active.
\<close>

lemma append_images_urls:
  "list_all is_Str urls \<Longrightarrow> \<exists>imgs. append_images i urls s =
      Returned (s\<lparr>imageCarousel := imageCarousel s @ imgs\<rparr>) \<and> length imgs = length urls"
proof (induction urls arbitrary: i s)
  case Nil
  show ?case by simp
next
  case (Cons url urls)
  from Cons.prems obtain u where u: "url = Str u" by (cases url) auto
  define img where "img = \<lparr>img_className = ''preview-image'', img_src = lit u,
      img_alt = lit (''page '' @ nat_str (i + 1)), img_onclick = url\<rparr>"
  let ?s = "s\<lparr>imageCarousel := imageCarousel s @ [img]\<rparr>"
  from Cons.prems have "list_all is_Str urls" by simp
  from Cons.IH [OF this, of "Suc i" ?s]
  obtain imgs where i: "append_images (Suc i) urls ?s =
      Returned (?s\<lparr>imageCarousel := imageCarousel ?s @ imgs\<rparr>)" "length imgs = length urls"
    by blast
  have "append_images i (url # urls) s = append_images (Suc i) urls ?s"
    by (simp add: u img_def)
  with i(1) have "append_images i (url # urls) s =
      Returned (s\<lparr>imageCarousel := imageCarousel s @ (img # imgs)\<rparr>)"
    by simp
  with i(2) show ?case by (intro exI [of _ "img # imgs"]) simp
qed

lemma showPreview_generate_response:
  assumes "generate_response data"
  shows "\<exists>ct cv im title line urls imgs.
      get_prop data ''caption_title'' = Inr ct \<and> get_prop data ''cover_title'' = Inr cv
      \<and> get_prop data ''images'' = Inr im
      \<and> text_content (js_or ct (Str [])) = Inr title \<and> (ct = Undefined \<longrightarrow> title = [])
      \<and> js_replace_newlines (js_or cv (Str [])) = Inr line \<and> (cv = Undefined \<longrightarrow> line = [])
      \<and> js_array (js_or im (Arr [])) = Inr urls \<and> (im = Undefined \<longrightarrow> urls = [])
      \<and> length imgs = length urls
      \<and> showPreview data s =
        Returned (rearm_publish
          (s\<lparr>previewTitle := title, previewSubtitle := lit (''cover title: '' @ line),
             imageCarousel := imgs\<rparr>))"
proof -
  from assms obtain kvs where d: "data = Obj kvs" by (cases data) auto
  define ct where "ct = (case map_of kvs ''caption_title'' of None \<Rightarrow> Undefined | Some v \<Rightarrow> v)"
  define cv where "cv = (case map_of kvs ''cover_title'' of None \<Rightarrow> Undefined | Some v \<Rightarrow> v)"
  define im where "im = (case map_of kvs ''images'' of None \<Rightarrow> Undefined | Some v \<Rightarrow> v)"
  have g: "get_prop data ''caption_title'' = Inr ct" "get_prop data ''cover_title'' = Inr cv"
    "get_prop data ''images'' = Inr im"
    by (simp_all add: d ct_def cv_def im_def)
  from assms have ok: "absent_or is_Str ct" "absent_or is_Str cv" "absent_or is_urls im"
    by (simp_all add: d ct_def cv_def im_def)
  from ok(1) have "\<exists>title. text_content (js_or ct (Str [])) = Inr title \<and> (ct = Undefined \<longrightarrow> title = [])"
    by (cases ct) (auto simp: absent_or_def js_or_def text_content_def lit_def)
  then obtain title where t: "text_content (js_or ct (Str [])) = Inr title" "ct = Undefined \<longrightarrow> title = []"
    by blast
  from ok(2) have "\<exists>line. js_replace_newlines (js_or cv (Str [])) = Inr line \<and> (cv = Undefined \<longrightarrow> line = [])"
    by (cases cv) (auto simp: absent_or_def js_or_def)
  then obtain line where l: "js_replace_newlines (js_or cv (Str [])) = Inr line" "cv = Undefined \<longrightarrow> line = []"
    by blast
  from ok(3) have "\<exists>urls. js_array (js_or im (Arr [])) = Inr urls \<and> list_all is_Str urls
      \<and> (im = Undefined \<longrightarrow> urls = [])"
    by (cases im) (auto simp: absent_or_def js_or_def is_urls_def)
  then obtain urls where u: "js_array (js_or im (Arr [])) = Inr urls" "list_all is_Str urls"
    "im = Undefined \<longrightarrow> urls = []"
    by blast
  let ?s = "s\<lparr>previewTitle := title, previewSubtitle := lit (''cover title: '' @ line), imageCarousel := []\<rparr>"
  from append_images_urls [OF u(2), of 0 ?s]
  obtain imgs where i: "append_images 0 urls ?s = Returned (?s\<lparr>imageCarousel := imageCarousel ?s @ imgs\<rparr>)"
    "length imgs = length urls" by blast
  have "showPreview data s =
        Returned (rearm_publish
          (s\<lparr>previewTitle := title, previewSubtitle := lit (''cover title: '' @ line),
             imageCarousel := imgs\<rparr>))"
    using g t(1) l(1) u(1) i(1)
    by (simp add: showPreview_def showPreview_subtitle_def showPreview_images_def)
  with g t l u(1,3) i(2) show ?thesis by blast
qed

text \<open>
  Claim C7, as stated: every call of \<^verbatim>\<open>showPreview\<close> leaves the publish button enabled and
  with its default label. A call can throw before it reaches the reset: on a response whose
  \<^verbatim>\<open>images\<close> is a string, after a publish that succeeded, \<^verbatim>\<open>forEach\<close> is not a function, and the
  button stays disabled with the label of the finished publish.
\<close>

theorem showPreview_throw_counterexample:
  "showPreview bad_images published =
     Thrown TypeError
       (published\<lparr>previewTitle := lit ''T'', previewSubtitle := lit ''cover title: '',
                  imageCarousel := []\<rparr>)
   \<and> btnPublish (published\<lparr>previewTitle := lit ''T'', previewSubtitle := lit ''cover title: '',
                  imageCarousel := []\<rparr>) = \<lparr>disabled = True, innerHTML = LABEL_PUBLISHED\<rparr>"
  by (simp add: showPreview_def showPreview_subtitle_def showPreview_images_def bad_images_def
      js_or_def text_content_def published_btn)

text \<open>
  Claim C7, amended. Every call of \<^verbatim>\<open>showPreview\<close> that returns leaves the publish button
  enabled and with its default label, and the panel active, whatever the state before the
  call, so also after a publish that succeeded and left the button disabled; on a generate
  response every call returns. A call that throws leaves the publish button and the panel as
  they were.
\<close>

theorem showPreview_rearms_publish:
  "(generate_response data \<longrightarrow> (\<exists>s'. showPreview data s = Returned s'))
   \<and> (\<forall>s'. showPreview data s = Returned s' \<longrightarrow>
         btnPublish s' = \<lparr>disabled = False, innerHTML = LABEL_PUBLISH\<rparr> \<and> previewPanel s')
   \<and> (\<forall>e s'. showPreview data s = Thrown e s' \<longrightarrow>
         btnPublish s' = btnPublish s \<and> previewPanel s' = previewPanel s)"
  using showPreview_generate_response [of data s] showPreview_returned [of data s]
    showPreview_thrown [of data s]
  by blast

theorem showPreview_rearms_publish_witness:
  "generate_response preview_T
   \<and> btnPublish published = \<lparr>disabled = True, innerHTML = LABEL_PUBLISHED\<rparr>
   \<and> (\<exists>s'. showPreview preview_T published = Returned s'
          \<and> btnPublish s' = \<lparr>disabled = False, innerHTML = LABEL_PUBLISH\<rparr> \<and> previewPanel s')
   \<and> showPreview bad_images published =
       Thrown TypeError
         (published\<lparr>previewTitle := lit ''T'', previewSubtitle := lit ''cover title: '',
                    imageCarousel := []\<rparr>)
   \<and> btnPublish (published\<lparr>previewTitle := lit ''T'', previewSubtitle := lit ''cover title: '',
                    imageCarousel := []\<rparr>) = btnPublish published"
proof -
  have g: "generate_response preview_T"
    by (simp add: preview_T_def absent_or_def is_urls_def)
  have t: "showPreview bad_images published =
       Thrown TypeError
         (published\<lparr>previewTitle := lit ''T'', previewSubtitle := lit ''cover title: '',
                    imageCarousel := []\<rparr>)"
    by (simp add: showPreview_def showPreview_subtitle_def showPreview_images_def bad_images_def
        js_or_def text_content_def)
  note good = showPreview_rearms_publish [of preview_T published]
  note bad = showPreview_rearms_publish [of bad_images published]
  from good g have 1: "\<exists>s'. showPreview preview_T published = Returned s'
          \<and> btnPublish s' = \<lparr>disabled = False, innerHTML = LABEL_PUBLISH\<rparr> \<and> previewPanel s'"
    by blast
  from bad t have 2: "btnPublish (published\<lparr>previewTitle := lit ''T'',
      previewSubtitle := lit ''cover title: '', imageCarousel := []\<rparr>) = btnPublish published"
    by blast
  show ?thesis
    by (intro conjI) (fact g published_btn 1 t 2)+
qed

text \<open>
  Claim C10. \<^verbatim>\<open>showPreview\<close> does not throw on a generate response in which
  \<^verbatim>\<open>caption_title\<close>, \<^verbatim>\<open>cover_title\<close> or \<^verbatim>\<open>images\<close> is absent: it returns, the panel is active, the
  publish button is re-armed, and an absent title gives the empty title, an absent cover title
  the bare prefix of the cover-title line, absent images the empty carousel.
\<close>

theorem showPreview_total_on_missing:
  assumes "generate_response data"
  shows "\<exists>s'. showPreview data s = Returned s'
           \<and> previewPanel s'
           \<and> btnPublish s' = \<lparr>disabled = False, innerHTML = LABEL_PUBLISH\<rparr>
           \<and> (get_prop data ''caption_title'' = Inr Undefined \<longrightarrow> previewTitle s' = [])
           \<and> (get_prop data ''cover_title'' = Inr Undefined \<longrightarrow>
                previewSubtitle s' = lit ''cover title: '')
           \<and> (get_prop data ''images'' = Inr Undefined \<longrightarrow> imageCarousel s' = [])"
  using showPreview_generate_response [OF assms, of s]
  by (auto simp: rearm_publish_def)

theorem showPreview_total_on_missing_witness:
  "generate_response (Obj [(''success'', Bool True)])
   \<and> get_prop (Obj [(''success'', Bool True)]) ''caption_title'' = Inr Undefined
   \<and> get_prop (Obj [(''success'', Bool True)]) ''cover_title'' = Inr Undefined
   \<and> get_prop (Obj [(''success'', Bool True)]) ''images'' = Inr Undefined
   \<and> (\<exists>s'. showPreview (Obj [(''success'', Bool True)]) page0 = Returned s'
           \<and> previewPanel s'
           \<and> btnPublish s' = \<lparr>disabled = False, innerHTML = LABEL_PUBLISH\<rparr>
           \<and> previewTitle s' = [] \<and> previewSubtitle s' = lit ''cover title: ''
           \<and> imageCarousel s' = [])"
proof -
  have g: "generate_response (Obj [(''success'', Bool True)])"
    "get_prop (Obj [(''success'', Bool True)]) ''caption_title'' = Inr Undefined"
    "get_prop (Obj [(''success'', Bool True)]) ''cover_title'' = Inr Undefined"
    "get_prop (Obj [(''success'', Bool True)]) ''images'' = Inr Undefined"
    by (simp_all add: absent_or_def)
  from showPreview_total_on_missing [OF g(1), of page0] g(2,3,4)
  have "\<exists>s'. showPreview (Obj [(''success'', Bool True)]) page0 = Returned s'
           \<and> previewPanel s'
           \<and> btnPublish s' = \<lparr>disabled = False, innerHTML = LABEL_PUBLISH\<rparr>
           \<and> previewTitle s' = [] \<and> previewSubtitle s' = lit ''cover title: ''
           \<and> imageCarousel s' = []"
    by blast
  with g show ?thesis by blast
qed

section \<open>Inbound frames\<close>

lemma num_text_150: "num_text (Fin 150) = lit ''150''"
  by (simp add: num_text_def int_str_def nat_str.simps digit_def)

lemma Math_round_int: "Math_round (Fin (of_int n)) = Fin (of_int n)"
proof -
  have "\<lfloor>(of_int n :: rat) + 1 / 2\<rfloor> = n" by (rule floor_unique) simp_all
  then show ?thesis by simp
qed

lemma Math_round_examples:
  "Math_round (Fin 150) = Fin 150" "Math_round (Fin (- 5)) = Fin (- 5)"
  "Math_round (Fin (168 / 5)) = Fin 34"
proof -
  show "Math_round (Fin 150) = Fin 150" using Math_round_int [of 150] by simp
  show "Math_round (Fin (- 5)) = Fin (- 5)" using Math_round_int [of "- 5"] by simp
  have "\<lfloor>(168 / 5 :: rat) + 1 / 2\<rfloor> = 34" by (rule floor_unique) simp_all
  then show "Math_round (Fin (168 / 5)) = Fin 34" by simp
qed

text \<open>
  Claim C8, as stated: the value of a \<^verbatim>\<open>progress\<close> frame is clamped to 0 to 100 when it is
  rendered. It is not: the value 150 is rendered as 150 percent, in the width of the bar and in
  the text.
\<close>

theorem progress_value_counterexample:
  "ws_onmessage (Some (progress_frame 150)) page0 =
     Returned (page0\<lparr>progressWrapper := True, progressBar := Width (lit ''150%''),
                    progressText := lit ''150%''\<rparr>)"
  by (simp add: ws_onmessage_def progress_frame_def updateProgress_def set_width_percent_def
      round_text_def Math_round_examples num_text_150 lit_def del: Math_round.simps)

text \<open>
  Claim C8, amended. A \<^verbatim>\<open>log\<close> frame whose message is a string appends that string to the log
  as it is and changes nothing else. A \<^verbatim>\<open>progress\<close> frame that carries a number shows the
  progress bar and renders the number with no clamping: the text is the number rounded to the
  nearest integer and the percent sign, and the width of the bar is the number and the
  percent sign when the number is finite and not negative, and stays as it was otherwise. A
  frame that parses to a value of any other type, or of none, changes nothing. A frame that
  parses to \<^verbatim>\<open>null\<close> and a frame that is not JSON make the listener throw, with nothing
  changed.
\<close>

theorem ws_onmessage_dispatch:
  "(get_prop data ''type'' = Inr (Str ''log'') \<and> get_prop data ''message'' = Inr (Str m) \<longrightarrow>
      ws_onmessage (Some data) s = Returned (s\<lparr>logContainer := logContainer s @ [lit m]\<rparr>))
   \<and> (get_prop data ''type'' = Inr (Str ''progress'') \<and> get_prop data ''value'' = Inr (Num x) \<longrightarrow>
        ws_onmessage (Some data) s =
          Returned
            (s\<lparr>progressWrapper := True,
               progressBar := (if width_accepts x then Width (num_text x @ lit ''%'') else progressBar s),
               progressText := num_text (Math_round x) @ lit ''%''\<rparr>))
   \<and> (\<forall>t. get_prop data ''type'' = Inr t \<and> t \<noteq> Str ''log'' \<and> t \<noteq> Str ''progress'' \<longrightarrow>
          ws_onmessage (Some data) s = Returned s)
   \<and> (\<forall>e. get_prop data ''type'' = Inl e \<longrightarrow> ws_onmessage (Some data) s = Thrown e s)
   \<and> ws_onmessage None s = Thrown SyntaxError s"
  by (simp add: ws_onmessage_def appendLog_Str updateProgress_def set_width_percent_def
      round_text_def Let_def)

theorem ws_onmessage_dispatch_witness:
  "ws_onmessage (Some (Obj [(''type'', Str ''log''), (''message'', Str ''step 1'')])) page0 =
     Returned (page0\<lparr>logContainer := logContainer page0 @ [lit ''step 1'']\<rparr>)
   \<and> ws_onmessage (Some (progress_frame (168 / 5))) page0 =
       Returned (page0\<lparr>progressWrapper := True,
                      progressBar := Width ([NumText (168 / 5)] @ lit ''%''),
                      progressText := lit ''34'' @ lit ''%''\<rparr>)
   \<and> ws_onmessage (Some (progress_frame (- 5))) page0 =
       Returned (page0\<lparr>progressWrapper := True, progressBar := progressBar page0,
                      progressText := lit ''-5'' @ lit ''%''\<rparr>)
   \<and> ws_onmessage (Some (Obj [(''type'', Str ''status''), (''message'', Str ''x'')])) page0 =
       Returned page0
   \<and> ws_onmessage (Some Null) page0 = Thrown TypeError page0
   \<and> ws_onmessage None page0 = Thrown SyntaxError page0"
proof -
  have f: "\<lfloor>(168 / 5 :: rat)\<rfloor> = 33" by (rule floor_unique) simp_all
  have n1: "width_accepts (Fin (168 / 5))" "num_text (Fin (168 / 5)) = [NumText (168 / 5)]"
    "num_text (Math_round (Fin (168 / 5))) = lit ''34''"
    by (simp_all add: Math_round_examples num_text_def f int_str_def nat_str.simps digit_def
        del: Math_round.simps)
  have n2: "\<not> width_accepts (Fin (- 5))" "num_text (Math_round (Fin (- 5))) = lit ''-5''"
    by (simp_all add: Math_round_examples num_text_def int_str_def nat_str.simps digit_def
        del: Math_round.simps)
  note lg = ws_onmessage_dispatch [of "Obj [(''type'', Str ''log''), (''message'', Str ''step 1'')]"
      "''step 1''" page0 "Fin 0"]
  note p1 = ws_onmessage_dispatch [of "progress_frame (168 / 5)" "[]" page0 "Fin (168 / 5)"]
  note p2 = ws_onmessage_dispatch [of "progress_frame (- 5)" "[]" page0 "Fin (- 5)"]
  note ot = ws_onmessage_dispatch [of "Obj [(''type'', Str ''status''), (''message'', Str ''x'')]"
      "[]" page0 "Fin 0"]
  note nl = ws_onmessage_dispatch [of Null "[]" page0 "Fin 0"]
  have 1: "ws_onmessage (Some (Obj [(''type'', Str ''log''), (''message'', Str ''step 1'')])) page0 =
     Returned (page0\<lparr>logContainer := logContainer page0 @ [lit ''step 1'']\<rparr>)"
    using lg by simp
  have g: "get_prop (progress_frame r) ''type'' = Inr (Str ''progress'')"
    "get_prop (progress_frame r) ''value'' = Inr (Num (Fin r))" for r
    by (simp_all add: progress_frame_def)
  from p1 g [of "168 / 5"] have "ws_onmessage (Some (progress_frame (168 / 5))) page0 =
          Returned
            (page0\<lparr>progressWrapper := True,
               progressBar := (if width_accepts (Fin (168 / 5))
                 then Width (num_text (Fin (168 / 5)) @ lit ''%'') else progressBar page0),
               progressText := num_text (Math_round (Fin (168 / 5))) @ lit ''%''\<rparr>)"
    by blast
  then have 2: "ws_onmessage (Some (progress_frame (168 / 5))) page0 =
       Returned (page0\<lparr>progressWrapper := True,
                      progressBar := Width ([NumText (168 / 5)] @ lit ''%''),
                      progressText := lit ''34'' @ lit ''%''\<rparr>)"
    by (simp only: n1 if_True)
  from p2 g [of "- 5"] have "ws_onmessage (Some (progress_frame (- 5))) page0 =
          Returned
            (page0\<lparr>progressWrapper := True,
               progressBar := (if width_accepts (Fin (- 5))
                 then Width (num_text (Fin (- 5)) @ lit ''%'') else progressBar page0),
               progressText := num_text (Math_round (Fin (- 5))) @ lit ''%''\<rparr>)"
    by blast
  then have 3: "ws_onmessage (Some (progress_frame (- 5))) page0 =
       Returned (page0\<lparr>progressWrapper := True, progressBar := progressBar page0,
                      progressText := lit ''-5'' @ lit ''%''\<rparr>)"
    by (simp only: n2 if_False)
  have 4: "ws_onmessage (Some (Obj [(''type'', Str ''status''), (''message'', Str ''x'')])) page0 =
       Returned page0"
    using ot by simp
  have 5: "ws_onmessage (Some Null) page0 = Thrown TypeError page0"
    using nl by simp
  from lg have 6: "ws_onmessage None page0 = Thrown SyntaxError page0" by blast
  show ?thesis
    by (intro conjI) (fact 1 2 3 4 5 6)+
qed

end
